theory Spec2Isabelle
  imports Main "HOL-Library.Finite_Map"
begin

section \<open>Values\<close>

text \<open>
  The values that travel between the caller, the module and the Keycloak REST API are JSON
  values: null, booleans, strings, lists and objects. A Python dict is a finite map, so that
  equality of two dicts does not depend on the order of their keys, as in Python. Numbers are
  left out: no option that describes the user is numeric.
\<close>

datatype pyval =
    PNone
  | PBool bool
  | PStr string
  | PList "pyval list"
  | PDict "(string, pyval) fmap"

type_synonym pydict = "(string, pyval) fmap"

text \<open>\<^verbatim>\<open>module.params\<close>: the options of the module after argument parsing, a dict in the
  order of its keys. It holds what the caller gave, under the names the caller used (an option
  given under an alias stays there under the alias as well), and every option of the argument
  spec the caller left out, with its default, or \<^verbatim>\<open>None\<close> when it has none.\<close>

type_synonym params = "(string \<times> pyval) list"

definition params_get :: "params \<Rightarrow> string \<Rightarrow> pyval" where
  "params_get ps k = (case map_of ps k of None \<Rightarrow> PNone | Some v \<Rightarrow> v)"

section \<open>The argument spec\<close>

text \<open>\<^verbatim>\<open>meta_args\<close> of \<^verbatim>\<open>main\<close>: every option with its default (\<^verbatim>\<open>None\<close> when it has none).\<close>

definition meta_args :: "(string \<times> pyval) list" where
  "meta_args =
    [(''state'', PStr ''present''),
     (''realm'', PStr ''master''),
     (''id'', PNone),
     (''name'', PNone),
     (''attributes'', PNone),
     (''email'', PNone),
     (''enabled'', PBool True),
     (''first_name'', PNone),
     (''last_name'', PNone),
     (''required_actions'', PNone),
     (''credentials'', PNone),
     (''email_verified'', PBool True)]"

section \<open>camel\<close>

text \<open>
  Modelled from the spec: \<^verbatim>\<open>camel\<close> is imported from the collection's
  \<^verbatim>\<open>module_utils/identity/keycloak/keycloak.py\<close>, which is not among the sources. The spec
  (4.3) has it translate a snake\_case parameter name to the camelCase field name of the
  remote API: the name is split at the underscores, the first word is kept and every later
  word starts with a capital.
\<close>

fun split_underscore :: "string \<Rightarrow> string list" where
  "split_underscore [] = [[]]"
| "split_underscore (c # cs) =
     (if c = CHR ''_'' then [] # split_underscore cs
      else (case split_underscore cs of
              [] \<Rightarrow> [[c]]
            | w # ws \<Rightarrow> (c # w) # ws))"

definition upper_char :: "char \<Rightarrow> char" where
  "upper_char c =
     (let n = (of_char c :: nat) in if 97 \<le> n \<and> n \<le> 122 then char_of (n - 32) else c)"

fun capitalize :: "string \<Rightarrow> string" where
  "capitalize [] = []"
| "capitalize (c # cs) = upper_char c # cs"

definition camel :: "string \<Rightarrow> string" where
  "camel words =
     (case split_underscore words of
        [] \<Rightarrow> []
      | w # ws \<Rightarrow> w @ concat (map capitalize ws))"

section \<open>Attribute values as lists\<close>

fun is_list :: "pyval \<Rightarrow> bool" where
  "is_list (PList _) = True"
| "is_list _ = False"

text \<open>\<^verbatim>\<open>[val] if not isinstance(val, list) else val\<close>\<close>

definition normalize_value :: "pyval \<Rightarrow> pyval" where
  "normalize_value val = (if \<not> is_list val then PList [val] else val)"

datatype failure =
    FailJson string
  | KeyError string
  | TypeError
  | AttributeError

text \<open>The loop over \<^verbatim>\<open>module.params["attributes"].items()\<close>, which runs when the option is
  not \<^verbatim>\<open>None\<close>. Only a dict has \<^verbatim>\<open>items\<close>.\<close>

definition normalize_attributes :: "params \<Rightarrow> failure + params" where
  "normalize_attributes ps =
     (case params_get ps ''attributes'' of
        PNone \<Rightarrow> Inr ps
      | PDict d \<Rightarrow>
          Inr (map (\<lambda>(k, v). if k = ''attributes'' then (k, PDict (fmmap normalize_value d)) else (k, v)) ps)
      | _ \<Rightarrow> Inl AttributeError)"

section \<open>The parameters of the user and the changeset\<close>

definition user_params :: "string list \<Rightarrow> params \<Rightarrow> string list" where
  "user_params auth_keys ps =
     filter (\<lambda>x. x \<notin> set (auth_keys @ [''state'', ''realm'']) \<and> params_get ps x \<noteq> PNone)
       (map fst ps)"

text \<open>The loop that builds the changeset: \<open>cs\<close> is the changeset so far.\<close>

fun build_changeset :: "params \<Rightarrow> pydict \<Rightarrow> string list \<Rightarrow> pydict \<Rightarrow> pydict" where
  "build_changeset ps before_user [] cs = cs"
| "build_changeset ps before_user (param # rest) cs =
     (let new_param_value = params_get ps param;
          old_value = (case fmlookup before_user param of Some v \<Rightarrow> v | None \<Rightarrow> PNone)
      in build_changeset ps before_user rest
           (if param = ''name'' then fmupd (camel ''username'') new_param_value cs
            else if param = ''user_groups'' then fmupd (camel ''groups'') new_param_value cs
            else if new_param_value \<noteq> old_value then fmupd (camel param) new_param_value cs
            else cs))"

text \<open>The changeset of a run: the loop over \<^verbatim>\<open>user_params\<close>, from the empty dict.\<close>

definition changeset_of :: "string list \<Rightarrow> params \<Rightarrow> pydict \<Rightarrow> pydict" where
  "changeset_of auth_keys ps before_user =
     build_changeset ps before_user (user_params auth_keys ps) fmempty"

section \<open>The gateway\<close>

text \<open>
  \<^verbatim>\<open>KeycloakAPI\<close> and \<^verbatim>\<open>get_token\<close> are external to the module: they are a parameter of
  \<^verbatim>\<open>main\<close>, a record of functions on the state \<open>'g\<close> of the remote server. A lookup answers
  with a representation or \<^verbatim>\<open>None\<close>; every call may fail with a message, which ends the run.
\<close>

record 'g keycloak_api =
  get_token :: "params \<Rightarrow> string option"
  get_user_by_name :: "pyval \<Rightarrow> pyval \<Rightarrow> 'g \<Rightarrow> string + pydict option"
  get_user_by_userid :: "pyval \<Rightarrow> pyval \<Rightarrow> 'g \<Rightarrow> string + pydict option"
  create_user :: "pydict \<Rightarrow> pyval \<Rightarrow> 'g \<Rightarrow> string + 'g"
  update_user :: "pydict \<Rightarrow> pyval \<Rightarrow> 'g \<Rightarrow> string + 'g"
  delete_user :: "pyval \<Rightarrow> pyval \<Rightarrow> 'g \<Rightarrow> string + 'g"

text \<open>The calls made on the gateway, in order, each with its arguments and the realm.\<close>

datatype call =
    GetUserByName pyval pyval
  | GetUserByUserid pyval pyval
  | CreateUser pydict pyval
  | UpdateUser pydict pyval
  | DeleteUser pyval pyval

fun mutating :: "call \<Rightarrow> bool" where
  "mutating (CreateUser _ _) = True"
| "mutating (UpdateUser _ _) = True"
| "mutating (DeleteUser _ _) = True"
| "mutating _ = False"

section \<open>The result\<close>

text \<open>The messages of the module, each with the values its template is filled with.\<close>

datatype message =
    NoMsg
  | UserDoesNotExist
  | UserCreated pyval pyval
  | NoChangesRequired pyval
  | UserUpdated pyval
  | UserDeleted pyval

text \<open>\<^verbatim>\<open>result\<close>: the key \<^verbatim>\<open>end_state\<close> is set on some paths only.\<close>

record result =
  changed :: bool
  msg :: message
  diff :: pyval
  user :: pyval
  end_state :: "pydict option"

datatype outcome =
    ExitJson result
  | Failed failure

definition diff_dict :: "pyval \<Rightarrow> pyval \<Rightarrow> pyval" where
  "diff_dict b a = PDict (fmupd ''after'' a (fmupd ''before'' b fmempty))"

definition getitem :: "pydict \<Rightarrow> string \<Rightarrow> failure + pyval" where
  "getitem d k = (case fmlookup d k of None \<Rightarrow> Inl (KeyError k) | Some v \<Rightarrow> Inr v)"

section \<open>main\<close>

text \<open>A run gives its outcome, the state of the remote server at its end and the calls it
  made on the gateway.\<close>

type_synonym 'g run = "outcome \<times> 'g \<times> call list"

text \<open>Process a creation: the resource does not exist and \<^verbatim>\<open>state\<close> is not \<^verbatim>\<open>absent\<close>.\<close>

definition process_creation ::
  "'g keycloak_api \<Rightarrow> bool \<Rightarrow> bool \<Rightarrow> result \<Rightarrow> pyval \<Rightarrow> pyval \<Rightarrow> pydict \<Rightarrow> 'g \<Rightarrow> 'g run" where
  "process_creation kc check_mode diff_mode result0 realm username desired_user g =
     (if username = PNone then
        (Failed (FailJson ''name must be specified when creating a new user''), g, [])
      else
        let result1 = (if diff_mode
                       then result0\<lparr>diff := diff_dict (PStr []) (PDict desired_user)\<rparr>
                       else result0)
        in if check_mode then (ExitJson result1, g, [])
           else
             (case create_user kc desired_user realm g of
                Inl e \<Rightarrow> (Failed (FailJson e), g, [CreateUser desired_user realm])
              | Inr g1 \<Rightarrow>
                  let calls = [CreateUser desired_user realm, GetUserByName username realm]
                  in (case get_user_by_name kc username realm g1 of
                        Inl e \<Rightarrow> (Failed (FailJson e), g1, calls)
                      | Inr None \<Rightarrow> (Failed TypeError, g1, calls)
                      | Inr (Some after_user) \<Rightarrow>
                          (case getitem after_user ''username'' of
                             Inl e \<Rightarrow> (Failed e, g1, calls)
                           | Inr n \<Rightarrow>
                               (case getitem after_user ''id'' of
                                  Inl e \<Rightarrow> (Failed e, g1, calls)
                                | Inr i \<Rightarrow>
                                    (ExitJson (result1\<lparr>end_state := Some after_user,
                                                       user := PDict after_user,
                                                       msg := UserCreated n i,
                                                       changed := True\<rparr>), g1, calls))))))"

text \<open>Process an update: the resource exists and \<^verbatim>\<open>state\<close> is \<^verbatim>\<open>present\<close>.\<close>

definition process_update ::
  "'g keycloak_api \<Rightarrow> bool \<Rightarrow> bool \<Rightarrow> result \<Rightarrow> pyval \<Rightarrow> pydict \<Rightarrow> pydict \<Rightarrow> 'g \<Rightarrow> 'g run" where
  "process_update kc check_mode diff_mode result0 realm before_user desired_user g =
     (if desired_user = before_user then
        (case getitem before_user ''username'' of
           Inl e \<Rightarrow> (Failed e, g, [])
         | Inr n \<Rightarrow>
             (ExitJson (result0\<lparr>changed := False,
                                end_state := Some desired_user,
                                user := PDict desired_user,
                                msg := NoChangesRequired n\<rparr>), g, []))
      else
        let result1 = result0\<lparr>changed := True\<rparr>;
            result2 = (if diff_mode
                       then result1\<lparr>diff := diff_dict (PDict before_user) (PDict desired_user)\<rparr>
                       else result1)
        in if check_mode then (ExitJson result2, g, [])
           else
             (case update_user kc desired_user realm g of
                Inl e \<Rightarrow> (Failed (FailJson e), g, [UpdateUser desired_user realm])
              | Inr g1 \<Rightarrow>
                  (case getitem desired_user ''id'' of
                     Inl e \<Rightarrow> (Failed e, g1, [UpdateUser desired_user realm])
                   | Inr i \<Rightarrow>
                       let calls = [UpdateUser desired_user realm, GetUserByUserid i realm]
                       in (case get_user_by_userid kc i realm g1 of
                             Inl e \<Rightarrow> (Failed (FailJson e), g1, calls)
                           | Inr None \<Rightarrow> (Failed TypeError, g1, calls)
                           | Inr (Some after_user) \<Rightarrow>
                               (case getitem after_user ''id'' of
                                  Inl e \<Rightarrow> (Failed e, g1, calls)
                                | Inr j \<Rightarrow>
                                    (ExitJson (result2\<lparr>end_state := Some after_user,
                                                       user := PDict after_user,
                                                       msg := UserUpdated j\<rparr>), g1, calls))))))"

text \<open>Process a deletion: the resource exists and \<^verbatim>\<open>state\<close> is not \<^verbatim>\<open>present\<close>.\<close>

definition process_deletion ::
  "'g keycloak_api \<Rightarrow> bool \<Rightarrow> bool \<Rightarrow> result \<Rightarrow> pyval \<Rightarrow> pydict \<Rightarrow> 'g \<Rightarrow> 'g run" where
  "process_deletion kc check_mode diff_mode result0 realm before_user g =
     (let result1 = result0\<lparr>changed := True\<rparr>;
          result2 = (if diff_mode
                     then result1\<lparr>diff := diff_dict (PDict before_user) (PStr [])\<rparr>
                     else result1)
      in if check_mode then (ExitJson result2, g, [])
         else
           (case getitem before_user ''id'' of
              Inl e \<Rightarrow> (Failed e, g, [])
            | Inr uid \<Rightarrow>
                (case delete_user kc uid realm g of
                   Inl e \<Rightarrow> (Failed (FailJson e), g, [DeleteUser uid realm])
                 | Inr g1 \<Rightarrow>
                     (case getitem before_user ''username'' of
                        Inl e \<Rightarrow> (Failed e, g1, [DeleteUser uid realm])
                      | Inr n \<Rightarrow>
                          (ExitJson (result2\<lparr>end_state := Some fmempty,
                                             user := PDict fmempty,
                                             msg := UserDeleted n\<rparr>), g1, [DeleteUser uid realm])))))"

text \<open>The lookup: by name when no id is given, by id otherwise.\<close>

definition lookup_call :: "pyval \<Rightarrow> pyval \<Rightarrow> pyval \<Rightarrow> call" where
  "lookup_call uid username realm =
     (if uid = PNone then GetUserByName username realm else GetUserByUserid uid realm)"

definition lookup_user ::
  "'g keycloak_api \<Rightarrow> pyval \<Rightarrow> pyval \<Rightarrow> pyval \<Rightarrow> 'g \<Rightarrow> string + pydict option" where
  "lookup_user kc uid username realm g =
     (if uid = PNone then get_user_by_name kc username realm g
      else get_user_by_userid kc uid realm g)"

text \<open>What follows the lookup, from the changeset to the exit.\<close>

definition reconcile ::
  "'g keycloak_api \<Rightarrow> string list \<Rightarrow> bool \<Rightarrow> bool \<Rightarrow> params \<Rightarrow> pydict \<Rightarrow> 'g \<Rightarrow> 'g run" where
  "reconcile kc auth_keys check_mode diff_mode ps before_user g =
     (let result0 = \<lparr>changed = False, msg = NoMsg, diff = PDict fmempty, user = PStr [],
                     end_state = None\<rparr>;
          realm = params_get ps ''realm'';
          state = params_get ps ''state'';
          username = params_get ps ''name'';
          changeset = changeset_of auth_keys ps before_user;
          desired_user = before_user ++\<^sub>f changeset
      in if before_user = fmempty then
           (if state = PStr ''absent'' then
              (ExitJson ((if diff_mode then result0\<lparr>diff := diff_dict (PStr []) (PStr [])\<rparr>
                          else result0)
                         \<lparr>changed := False, end_state := Some fmempty, user := PDict fmempty,
                          msg := UserDoesNotExist\<rparr>), g, [])
            else process_creation kc check_mode diff_mode result0 realm username desired_user g)
         else if state = PStr ''present'' then
           process_update kc check_mode diff_mode result0 realm before_user desired_user g
         else process_deletion kc check_mode diff_mode result0 realm before_user g)"

definition main ::
  "'g keycloak_api \<Rightarrow> string list \<Rightarrow> bool \<Rightarrow> bool \<Rightarrow> params \<Rightarrow> 'g \<Rightarrow> 'g run" where
  "main kc auth_keys check_mode diff_mode params0 g =
     (case get_token kc params0 of
        Some e \<Rightarrow> (Failed (FailJson e), g, [])
      | None \<Rightarrow>
          let realm = params_get params0 ''realm'';
              uid = params_get params0 ''id'';
              username = params_get params0 ''name''
          in (case normalize_attributes params0 of
                Inl e \<Rightarrow> (Failed e, g, [])
              | Inr ps \<Rightarrow>
                  (case lookup_user kc uid username realm g of
                     Inl e \<Rightarrow> (Failed (FailJson e), g, [lookup_call uid username realm])
                   | Inr found \<Rightarrow>
                       let before_user = (case found of None \<Rightarrow> fmempty | Some u \<Rightarrow> u);
                           (out, g1, calls) =
                             reconcile kc auth_keys check_mode diff_mode ps before_user g
                       in (out, g1, lookup_call uid username realm # calls))))"

section \<open>Reading the changeset loop\<close>

text \<open>The options of \<^verbatim>\<open>meta_args\<close> that describe the user: all but \<^verbatim>\<open>state\<close> and \<^verbatim>\<open>realm\<close>.\<close>

definition user_fields :: "string list" where
  "user_fields = filter (\<lambda>x. x \<notin> set [''state'', ''realm'']) (map fst meta_args)"

text \<open>The key under which one turn of the loop writes, the value it compares with, and
  whether it writes at all.\<close>

definition translated :: "string \<Rightarrow> string" where
  "translated p =
     (if p = ''name'' then camel ''username''
      else if p = ''user_groups'' then camel ''groups''
      else camel p)"

definition old_value_of :: "pydict \<Rightarrow> string \<Rightarrow> pyval" where
  "old_value_of before_user p = (case fmlookup before_user p of Some v \<Rightarrow> v | None \<Rightarrow> PNone)"

definition recorded :: "params \<Rightarrow> pydict \<Rightarrow> string \<Rightarrow> bool" where
  "recorded ps before_user p \<longleftrightarrow>
     p = ''name'' \<or> p = ''user_groups'' \<or> params_get ps p \<noteq> old_value_of before_user p"

text \<open>Options that keep apart in the changeset: no two of them are written under the same
  key, and none is named like the key of another. The options of \<^verbatim>\<open>meta_args\<close> are so; an
  option \<^verbatim>\<open>username\<close> next to \<^verbatim>\<open>name\<close> is not.\<close>

definition separate :: "string list \<Rightarrow> bool" where
  "separate ups \<longleftrightarrow>
     distinct (map translated ups) \<and>
     (\<forall>p \<in> set ups. \<forall>q \<in> set ups. translated q = p \<longrightarrow> q = p)"

section \<open>A gateway that stores what it is sent\<close>

text \<open>
  Modelled from the spec: the gateway of the idempotence property (section 8), whose update
  stores the body it is sent and whose fetch returns the stored resource. \<^verbatim>\<open>KeycloakAPI\<close> itself
  is not among the sources. The state is the stored resource, if any; a created resource gets
  an identifier when the body has none; a delete leaves nothing.
\<close>

definition store_api :: "(pydict option) keycloak_api" where
  "store_api =
     \<lparr>get_token = (\<lambda>ps. None),
      get_user_by_name = (\<lambda>name realm g. Inr g),
      get_user_by_userid = (\<lambda>uid realm g. Inr g),
      create_user = (\<lambda>body realm g.
         Inr (Some (if ''id'' |\<in>| fmdom body then body
                    else fmupd ''id'' (PStr ''generated-id'') body))),
      update_user = (\<lambda>body realm g. Inr (Some body)),
      delete_user = (\<lambda>uid realm g. Inr None)\<rparr>"

text \<open>What a lookup on that gateway makes \<^verbatim>\<open>before_user\<close>.\<close>

definition stored :: "pydict option \<Rightarrow> pydict" where
  "stored g = (case g of None \<Rightarrow> fmempty | Some u \<Rightarrow> u)"

text \<open>A stored resource has a \<^verbatim>\<open>username\<close>, as every Keycloak user has.\<close>

definition named_store :: "pydict option \<Rightarrow> bool" where
  "named_store g \<longleftrightarrow> (case g of None \<Rightarrow> True | Some R \<Rightarrow> ''username'' |\<in>| fmdom R)"

section \<open>Inputs for the examples\<close>

text \<open>The connection options, under the names \<^verbatim>\<open>main\<close> filters out, and what the caller of
  the examples gives for them.\<close>

definition kc_keys :: "string list" where
  "kc_keys = [''auth_keycloak_url'', ''auth_client_id'', ''auth_realm'', ''auth_client_secret'',
     ''auth_username'', ''auth_password'', ''validate_certs'', ''token'']"

definition connection :: params where
  "connection =
     [(''auth_client_id'', PStr ''admin-cli''),
      (''auth_keycloak_url'', PStr ''https://auth.example.com/auth''),
      (''auth_realm'', PStr ''master''),
      (''auth_username'', PStr ''USERNAME''),
      (''auth_password'', PStr ''PASSWORD'')]"

text \<open>\<^verbatim>\<open>module.params\<close> of a run whose caller gives \<^verbatim>\<open>name\<close> and \<^verbatim>\<open>first_name\<close>: what the caller
  gave first, then the options left out, \<^verbatim>\<open>enabled\<close> and \<^verbatim>\<open>email_verified\<close> with their default
  true.\<close>

definition bob_params :: params where
  "bob_params =
     [(''name'', PStr ''bob''), (''first_name'', PStr ''Bob'')] @ connection @
     [(''validate_certs'', PBool True), (''state'', PStr ''present''), (''realm'', PStr ''master''),
      (''enabled'', PBool True), (''email_verified'', PBool True),
      (''auth_client_secret'', PNone), (''token'', PNone), (''id'', PNone),
      (''attributes'', PNone), (''email'', PNone), (''last_name'', PNone),
      (''required_actions'', PNone), (''credentials'', PNone)]"

text \<open>The caller gives \<^verbatim>\<open>id\<close> and \<^verbatim>\<open>email\<close>.\<close>

definition email_params :: params where
  "email_params =
     [(''id'', PStr ''u1''), (''email'', PStr ''x@y.com'')] @ connection @
     [(''validate_certs'', PBool True), (''state'', PStr ''present''), (''realm'', PStr ''master''),
      (''enabled'', PBool True), (''email_verified'', PBool True),
      (''auth_client_secret'', PNone), (''token'', PNone), (''name'', PNone),
      (''attributes'', PNone), (''first_name'', PNone), (''last_name'', PNone),
      (''required_actions'', PNone), (''credentials'', PNone)]"

text \<open>The caller gives \<^verbatim>\<open>id\<close> only.\<close>

definition id_params :: params where
  "id_params =
     [(''id'', PStr ''u1'')] @ connection @
     [(''validate_certs'', PBool True), (''state'', PStr ''present''), (''realm'', PStr ''master''),
      (''enabled'', PBool True), (''email_verified'', PBool True),
      (''auth_client_secret'', PNone), (''token'', PNone), (''name'', PNone),
      (''attributes'', PNone), (''email'', PNone), (''first_name'', PNone), (''last_name'', PNone),
      (''required_actions'', PNone), (''credentials'', PNone)]"

text \<open>The caller gives \<^verbatim>\<open>name\<close> and \<^verbatim>\<open>state\<close> \<^verbatim>\<open>absent\<close>.\<close>

definition absent_params :: params where
  "absent_params =
     [(''name'', PStr ''bob''), (''state'', PStr ''absent'')] @ connection @
     [(''validate_certs'', PBool True), (''realm'', PStr ''master''),
      (''enabled'', PBool True), (''email_verified'', PBool True),
      (''auth_client_secret'', PNone), (''token'', PNone), (''id'', PNone),
      (''attributes'', PNone), (''email'', PNone), (''first_name'', PNone), (''last_name'', PNone),
      (''required_actions'', PNone), (''credentials'', PNone)]"

text \<open>The caller gives \<^verbatim>\<open>id\<close> and \<^verbatim>\<open>enabled\<close>.\<close>

definition enabled_params :: params where
  "enabled_params =
     [(''id'', PStr ''u1''), (''enabled'', PBool True)] @ connection @
     [(''validate_certs'', PBool True), (''state'', PStr ''present''), (''realm'', PStr ''master''),
      (''email_verified'', PBool True),
      (''auth_client_secret'', PNone), (''token'', PNone), (''name'', PNone),
      (''attributes'', PNone), (''email'', PNone), (''first_name'', PNone), (''last_name'', PNone),
      (''required_actions'', PNone), (''credentials'', PNone)]"

text \<open>The caller gives \<^verbatim>\<open>name\<close> and, for the connection, the aliases \<^verbatim>\<open>url\<close>, \<^verbatim>\<open>username\<close> and
  \<^verbatim>\<open>password\<close>: they stay in \<^verbatim>\<open>module.params\<close> next to the options they stand for.\<close>

definition alias_params :: params where
  "alias_params =
     [(''name'', PStr ''bob''),
      (''url'', PStr ''https://auth.example.com/auth''),
      (''username'', PStr ''admin''),
      (''password'', PStr ''PASSWORD''),
      (''auth_realm'', PStr ''master''),
      (''auth_keycloak_url'', PStr ''https://auth.example.com/auth''),
      (''auth_username'', PStr ''admin''),
      (''auth_password'', PStr ''PASSWORD''),
      (''auth_client_id'', PStr ''admin-cli''), (''validate_certs'', PBool True),
      (''state'', PStr ''present''), (''realm'', PStr ''master''),
      (''enabled'', PBool True), (''email_verified'', PBool True),
      (''auth_client_secret'', PNone), (''token'', PNone), (''id'', PNone),
      (''attributes'', PNone), (''email'', PNone), (''first_name'', PNone), (''last_name'', PNone),
      (''required_actions'', PNone), (''credentials'', PNone)]"

text \<open>As in the example ``Update the name of a Keycloak user'' of the module: the caller gives
  \<^verbatim>\<open>id\<close> and \<^verbatim>\<open>username\<close>, and no \<^verbatim>\<open>name\<close>.\<close>

definition rename_params :: params where
  "rename_params =
     [(''id'', PStr ''u1''), (''username'', PStr ''bruce''), (''state'', PStr ''present'')] @
     connection @
     [(''validate_certs'', PBool True), (''realm'', PStr ''master''),
      (''enabled'', PBool True), (''email_verified'', PBool True),
      (''auth_client_secret'', PNone), (''token'', PNone), (''name'', PNone),
      (''attributes'', PNone), (''email'', PNone), (''first_name'', PNone), (''last_name'', PNone),
      (''required_actions'', PNone), (''credentials'', PNone)]"

text \<open>The caller gives \<^verbatim>\<open>id\<close> and \<^verbatim>\<open>enabled\<close>, and the address of the server under its alias
  \<^verbatim>\<open>url\<close>.\<close>

definition enabled_url_params :: params where
  "enabled_url_params =
     [(''id'', PStr ''u1''), (''enabled'', PBool True),
      (''url'', PStr ''https://auth.example.com/auth''),
      (''auth_client_id'', PStr ''admin-cli''), (''auth_realm'', PStr ''master''),
      (''auth_username'', PStr ''USERNAME''), (''auth_password'', PStr ''PASSWORD''),
      (''auth_keycloak_url'', PStr ''https://auth.example.com/auth''),
      (''validate_certs'', PBool True), (''state'', PStr ''present''), (''realm'', PStr ''master''),
      (''email_verified'', PBool True),
      (''auth_client_secret'', PNone), (''token'', PNone), (''name'', PNone),
      (''attributes'', PNone), (''email'', PNone), (''first_name'', PNone), (''last_name'', PNone),
      (''required_actions'', PNone), (''credentials'', PNone)]"

text \<open>Remote resources.\<close>

definition bob_user :: pydict where
  "bob_user = fmap_of_list
     [(''id'', PStr ''u1''), (''username'', PStr ''bob''), (''firstName'', PStr ''Bob''),
      (''enabled'', PBool True), (''emailVerified'', PBool True)]"

definition unverified_user :: pydict where
  "unverified_user = fmap_of_list
     [(''id'', PStr ''u1''), (''username'', PStr ''bob''), (''enabled'', PBool True),
      (''emailVerified'', PBool False)]"

definition disabled_user :: pydict where
  "disabled_user = fmap_of_list
     [(''id'', PStr ''u1''), (''username'', PStr ''bob''), (''enabled'', PBool False),
      (''emailVerified'', PBool True)]"

definition admin_user :: pydict where
  "admin_user = fmap_of_list
     [(''id'', PStr ''u1''), (''username'', PStr ''admin''), (''firstName'', PStr ''Bob''),
      (''enabled'', PBool True), (''emailVerified'', PBool True)]"

text \<open>The resource left by a run with \<^verbatim>\<open>alias_params\<close> on \<^verbatim>\<open>bob_user\<close>.\<close>

definition aliased_user :: pydict where
  "aliased_user = fmap_of_list
     [(''id'', PStr ''u1''), (''username'', PStr ''admin''), (''firstName'', PStr ''Bob''),
      (''enabled'', PBool True), (''emailVerified'', PBool True),
      (''url'', PStr ''https://auth.example.com/auth''), (''password'', PStr ''PASSWORD'')]"

text \<open>Whether a run exits with \<^verbatim>\<open>changed\<close> true.\<close>

definition reports_change :: "outcome \<Rightarrow> bool" where
  "reports_change out = (case out of ExitJson r \<Rightarrow> changed r | Failed e \<Rightarrow> False)"

section \<open>The changeset loop, key by key\<close>

lemma build_changeset_step:
  "build_changeset ps R (p # rest) cs =
     build_changeset ps R rest
       (if recorded ps R p then fmupd (translated p) (params_get ps p) cs else cs)"
  by (simp add: recorded_def translated_def old_value_of_def Let_def)


lemma build_changeset_dom:
  "fmdom' (build_changeset ps R ups cs) =
     fmdom' cs \<union> translated ` {p \<in> set ups. recorded ps R p}"
proof (induction ups arbitrary: cs)
  case Nil
  then show ?case by simp
next
  case (Cons p rest)
  show ?case
    unfolding build_changeset_step Cons.IH by auto
qed


lemma build_changeset_origin:
  "fmlookup (build_changeset ps R ups cs) k = Some v \<Longrightarrow>
     fmlookup cs k = Some v \<or>
     (\<exists>p \<in> set ups. recorded ps R p \<and> translated p = k \<and> v = params_get ps p)"
proof (induction ups arbitrary: cs)
  case Nil
  then show ?case by simp
next
  case (Cons p rest)
  from Cons.prems Cons.IH
  have "fmlookup (if recorded ps R p then fmupd (translated p) (params_get ps p) cs else cs) k
          = Some v \<or>
        (\<exists>q \<in> set rest. recorded ps R q \<and> translated q = k \<and> v = params_get ps q)"
    unfolding build_changeset_step by blast
  then show ?case by (auto split: if_splits)
qed


lemma changeset_of_dom:
  "fmdom' (changeset_of auth_keys ps R) =
     translated ` {p \<in> set (user_params auth_keys ps). recorded ps R p}"
  by (simp add: changeset_of_def build_changeset_dom)

lemma changeset_of_origin:
  assumes "fmlookup (changeset_of auth_keys ps R) k = Some v"
  shows "\<exists>p \<in> set (user_params auth_keys ps).
           recorded ps R p \<and> translated p = k \<and> v = params_get ps p"
  using build_changeset_origin [OF assms [unfolded changeset_of_def]] by simp


lemma changeset_of_sole:
  assumes "p \<in> set (user_params auth_keys ps)" "recorded ps R p"
    and "\<forall>q \<in> set (user_params auth_keys ps). q \<noteq> p \<longrightarrow> translated q \<noteq> translated p"
  shows "fmlookup (changeset_of auth_keys ps R) (translated p) = Some (params_get ps p)"
proof -
  from assms(1,2) have "translated p \<in> fmdom' (changeset_of auth_keys ps R)"
    unfolding changeset_of_dom by blast
  then obtain v where v: "fmlookup (changeset_of auth_keys ps R) (translated p) = Some v"
    by (auto simp: fmlookup_dom'_iff)
  from changeset_of_origin [OF v] obtain q where q: "q \<in> set (user_params auth_keys ps)"
    "translated q = translated p" "v = params_get ps q" by blast
  with assms(3) have "q = p" by blast
  with v q(3) show ?thesis by simp
qed

lemma changeset_of_unwritten:
  assumes "\<forall>q \<in> set (user_params auth_keys ps). translated q \<noteq> k"
  shows "fmlookup (changeset_of auth_keys ps R) k = None"
proof -
  from assms have "k \<notin> fmdom' (changeset_of auth_keys ps R)"
    unfolding changeset_of_dom by blast
  then show ?thesis by (rule fmdom'_notD)
qed

lemma user_params_supplied:
  "p \<in> set (user_params auth_keys ps) \<Longrightarrow> params_get ps p \<noteq> PNone"
  by (simp add: user_params_def)

lemma user_params_iff:
  "p \<in> set (user_params auth_keys ps) \<longleftrightarrow>
     p \<in> set (map fst ps) \<and> p \<notin> set auth_keys \<and> p \<noteq> ''state'' \<and> p \<noteq> ''realm'' \<and>
     params_get ps p \<noteq> PNone"
  by (auto simp: user_params_def)

lemma camel_username: "camel ''username'' = ''username''"
  by code_simp

lemma translated_name: "translated ''name'' = ''username''"
  by (simp add: translated_def camel_username)

lemma translated_plain: "p \<noteq> ''name'' \<Longrightarrow> p \<noteq> ''user_groups'' \<Longrightarrow> translated p = camel p"
  by (simp add: translated_def)

lemma recorded_plain:
  "p \<noteq> ''name'' \<Longrightarrow> p \<noteq> ''user_groups'' \<Longrightarrow> params_get ps p \<noteq> PNone \<Longrightarrow>
     recorded ps R p \<longleftrightarrow> (p \<notin> fmdom' R \<or> fmlookup R p \<noteq> Some (params_get ps p))"
  by (cases "fmlookup R p") (auto simp: recorded_def old_value_of_def fmlookup_dom'_iff)

lemma user_fields_eq:
  "user_fields = [''id'', ''name'', ''attributes'', ''email'', ''enabled'', ''first_name'',
     ''last_name'', ''required_actions'', ''credentials'', ''email_verified'']"
  by (simp add: user_fields_def meta_args_def)

lemma translated_user_fields:
  "map translated user_fields = [''id'', ''username'', ''attributes'', ''email'', ''enabled'',
     ''firstName'', ''lastName'', ''requiredActions'', ''credentials'', ''emailVerified'']"
  unfolding user_fields_eq by code_simp

lemma separate_user_fields:
  assumes "set ups \<subseteq> set user_fields" "distinct ups"
  shows "separate ups"
proof -
  have "distinct (map translated user_fields)"
    unfolding translated_user_fields by simp
  then have "inj_on translated (set user_fields)" by (simp add: distinct_map)
  then have "inj_on translated (set ups)" using assms(1) by (rule inj_on_subset)
  with assms(2) have d: "distinct (map translated ups)" by (simp add: distinct_map)
  have "\<forall>p \<in> set user_fields. \<forall>q \<in> set user_fields. translated q = p \<longrightarrow> q = p"
    by code_simp
  with assms(1) have "\<forall>p \<in> set ups. \<forall>q \<in> set ups. translated q = p \<longrightarrow> q = p" by blast
  with d show ?thesis by (simp add: separate_def)
qed

lemma merge_unchanged:
  assumes "\<And>k v. fmlookup C k = Some v \<Longrightarrow> fmlookup R k = Some v"
  shows "R ++\<^sub>f C = R"
proof (rule fmap_ext)
  fix k
  show "fmlookup (R ++\<^sub>f C) k = fmlookup R k"
    using assms [of k] by (cases "fmlookup C k") (auto simp: fmlookup_dom_iff)
qed

lemma changeset_agrees:
  assumes "\<And>p. p \<in> set (user_params auth_keys ps) \<Longrightarrow> recorded ps R p \<Longrightarrow>
           fmlookup R (translated p) = Some (params_get ps p)"
  shows "R ++\<^sub>f changeset_of auth_keys ps R = R"
proof (rule merge_unchanged)
  fix k v
  assume "fmlookup (changeset_of auth_keys ps R) k = Some v"
  from changeset_of_origin [OF this]
  obtain p where p: "p \<in> set (user_params auth_keys ps)" "recorded ps R p" "translated p = k"
    "v = params_get ps p" by blast
  from assms [OF p(1,2)] p(3,4) show "fmlookup R k = Some v" by simp
qed

lemma changeset_differs:
  assumes "p \<in> set (user_params auth_keys ps)" "recorded ps R p"
    and "\<forall>q \<in> set (user_params auth_keys ps). q \<noteq> p \<longrightarrow> translated q \<noteq> translated p"
    and "fmlookup R (translated p) \<noteq> Some (params_get ps p)"
  shows "R ++\<^sub>f changeset_of auth_keys ps R \<noteq> R"
proof
  assume "R ++\<^sub>f changeset_of auth_keys ps R = R"
  then have "fmlookup (R ++\<^sub>f changeset_of auth_keys ps R) (translated p) = fmlookup R (translated p)"
    by simp
  with changeset_of_sole [OF assms(1-3)] assms(4) show False
    by (simp add: fmlookup_dom_iff)
qed

section \<open>The paths of main\<close>

lemma normalize_attributes_keys:
  "normalize_attributes ps0 = Inr ps \<Longrightarrow> map fst ps = map fst ps0"
  by (auto simp: normalize_attributes_def split: pyval.splits intro!: map_cong [OF refl]
      simp: case_prod_beta)

lemma map_of_map_attributes:
  "k \<noteq> a \<Longrightarrow> map_of (map (\<lambda>(k, v). if k = a then (k, w) else (k, v)) ps) k = map_of ps k"
  by (induction ps) auto

lemma normalize_attributes_get:
  "normalize_attributes ps0 = Inr ps \<Longrightarrow> k \<noteq> ''attributes'' \<Longrightarrow>
     params_get ps k = params_get ps0 k"
  by (auto simp: normalize_attributes_def params_get_def map_of_map_attributes split: pyval.splits)

lemma process_creation_check:
  "process_creation kc True diff_mode r realm username desired_user g = (out, g', calls) \<Longrightarrow>
     g' = g \<and> calls = []"
  by (auto simp: process_creation_def Let_def split: if_splits)

lemma process_update_check:
  "process_update kc True diff_mode r realm before_user desired_user g = (out, g', calls) \<Longrightarrow>
     g' = g \<and> calls = []"
  by (auto simp: process_update_def Let_def split: if_splits sum.splits)

lemma process_deletion_check:
  "process_deletion kc True diff_mode r realm before_user g = (out, g', calls) \<Longrightarrow>
     g' = g \<and> calls = []"
  by (auto simp: process_deletion_def Let_def split: if_splits)

lemma reconcile_check:
  "reconcile kc auth_keys True diff_mode ps before_user g = (out, g', calls) \<Longrightarrow>
     g' = g \<and> calls = []"
  unfolding reconcile_def Let_def
  by (auto split: if_splits dest: process_creation_check process_update_check process_deletion_check)

lemma main_unfold:
  assumes "get_token kc ps0 = None" "normalize_attributes ps0 = Inr ps"
    "lookup_user kc (params_get ps0 ''id'') (params_get ps0 ''name'') (params_get ps0 ''realm'') g
       = Inr found"
  shows "main kc auth_keys check_mode diff_mode ps0 g =
     (case reconcile kc auth_keys check_mode diff_mode ps
             (case found of None \<Rightarrow> fmempty | Some u \<Rightarrow> u) g of
        (out, g1, calls) \<Rightarrow>
          (out, g1, lookup_call (params_get ps0 ''id'') (params_get ps0 ''name'')
                      (params_get ps0 ''realm'') # calls))"
  using assms by (simp add: main_def Let_def)

lemma lookup_call_not_mutating: "\<not> mutating (lookup_call uid username realm)"
  by (simp add: lookup_call_def)

lemma main_early:
  assumes "main kc auth_keys check_mode diff_mode ps0 g = (out, g', calls)"
  shows "(\<exists>ps found. get_token kc ps0 = None \<and> normalize_attributes ps0 = Inr ps \<and>
           lookup_user kc (params_get ps0 ''id'') (params_get ps0 ''name'')
             (params_get ps0 ''realm'') g = Inr found) \<or>
         (g' = g \<and> (calls = [] \<or> calls = [lookup_call (params_get ps0 ''id'')
            (params_get ps0 ''name'') (params_get ps0 ''realm'')]) \<and> (\<exists>e. out = Failed e))"
  using assms by (auto simp: main_def Let_def split: option.splits sum.splits)

lemma reconcile_check_update:
  assumes "R \<noteq> fmempty" "params_get ps ''state'' = PStr ''present''"
    "R ++\<^sub>f changeset_of auth_keys ps R \<noteq> R"
  shows "reconcile kc auth_keys True diff_mode ps R g =
     (ExitJson \<lparr>changed = True, msg = NoMsg,
        diff = (if diff_mode then diff_dict (PDict R) (PDict (R ++\<^sub>f changeset_of auth_keys ps R))
                else PDict fmempty),
        user = PStr [], end_state = None\<rparr>, g, [])"
  using assms by (simp add: reconcile_def process_update_def Let_def)

lemma reconcile_missing_no_name:
  assumes "params_get ps ''state'' = PStr ''present''" "params_get ps ''name'' = PNone"
  shows "reconcile kc auth_keys check_mode diff_mode ps fmempty g =
     (Failed (FailJson ''name must be specified when creating a new user''), g, [])"
  using assms by (simp add: reconcile_def process_creation_def Let_def)

lemma process_creation_calls:
  assumes "username \<noteq> PNone"
  shows "\<exists>out g' rest. process_creation kc False diff_mode r realm username desired_user g =
     (out, g', CreateUser desired_user realm # rest)"
  using assms
  by (simp add: process_creation_def Let_def split: sum.splits option.splits)

lemma reconcile_missing_create:
  assumes "params_get ps ''state'' = PStr ''present''" "params_get ps ''name'' \<noteq> PNone"
  shows "\<exists>out g' rest. reconcile kc auth_keys False diff_mode ps fmempty g =
     (out, g', CreateUser (changeset_of auth_keys ps fmempty) (params_get ps ''realm'') # rest)"
  using assms process_creation_calls [of "params_get ps ''name''"]
  by (simp add: reconcile_def Let_def)

lemma reconcile_check_create:
  assumes "params_get ps ''state'' = PStr ''present''" "params_get ps ''name'' \<noteq> PNone"
  shows "\<exists>r. reconcile kc auth_keys True diff_mode ps fmempty g = (ExitJson r, g, []) \<and>
           \<not> changed r \<and> end_state r = None"
  using assms by (simp add: reconcile_def process_creation_def Let_def)

lemma reconcile_check_delete:
  assumes "R \<noteq> fmempty" "params_get ps ''state'' = PStr ''absent''"
  shows "\<exists>r. reconcile kc auth_keys True diff_mode ps R g = (ExitJson r, g, []) \<and> changed r"
  using assms by (simp add: reconcile_def process_deletion_def Let_def)

lemma process_creation_no_update:
  "process_creation kc check_mode diff_mode r realm username desired_user g = (out, g', calls) \<Longrightarrow>
     UpdateUser b rl \<notin> set calls"
  by (auto simp: process_creation_def Let_def split: if_splits sum.splits option.splits)

lemma process_deletion_no_update:
  "process_deletion kc check_mode diff_mode r realm before_user g = (out, g', calls) \<Longrightarrow>
     UpdateUser b rl \<notin> set calls"
  by (auto simp: process_deletion_def Let_def split: if_splits sum.splits)

lemma process_update_body:
  "process_update kc check_mode diff_mode r realm before_user desired_user g = (out, g', calls) \<Longrightarrow>
     UpdateUser b rl \<in> set calls \<Longrightarrow>
     b = desired_user \<and> rl = realm \<and> desired_user \<noteq> before_user \<and> \<not> check_mode"
  by (auto simp: process_update_def Let_def split: if_splits sum.splits option.splits)

lemma reconcile_update_body:
  assumes "reconcile kc auth_keys check_mode diff_mode ps before_user g = (out, g', calls)"
    and "UpdateUser b rl \<in> set calls"
  shows "before_user \<noteq> fmempty \<and> b = before_user ++\<^sub>f changeset_of auth_keys ps before_user \<and>
         b \<noteq> before_user \<and> params_get ps ''state'' = PStr ''present'' \<and>
         rl = params_get ps ''realm'' \<and> \<not> check_mode"
  using assms unfolding reconcile_def Let_def
  by (auto split: if_splits dest: process_creation_no_update process_deletion_no_update
      process_update_body)

lemma main_update_body:
  assumes "main kc auth_keys check_mode diff_mode ps0 g = (out, g', calls)"
    and "UpdateUser body realm \<in> set calls"
  shows "\<exists>ps R. get_token kc ps0 = None \<and> normalize_attributes ps0 = Inr ps \<and>
           lookup_user kc (params_get ps0 ''id'') (params_get ps0 ''name'')
             (params_get ps0 ''realm'') g = Inr (Some R) \<and>
           R \<noteq> fmempty \<and> body = R ++\<^sub>f changeset_of auth_keys ps R \<and> body \<noteq> R \<and>
           params_get ps0 ''state'' = PStr ''present'' \<and> realm = params_get ps0 ''realm'' \<and>
           \<not> check_mode"
proof -
  let ?l = "lookup_call (params_get ps0 ''id'') (params_get ps0 ''name'') (params_get ps0 ''realm'')"
  have nl: "UpdateUser body realm \<noteq> ?l" by (simp add: lookup_call_def)
  from main_early [OF assms(1)] assms(2) nl
  obtain ps found where h: "get_token kc ps0 = None" "normalize_attributes ps0 = Inr ps"
        "lookup_user kc (params_get ps0 ''id'') (params_get ps0 ''name'')
             (params_get ps0 ''realm'') g = Inr found" by auto
  let ?bu = "case found of None \<Rightarrow> fmempty | Some u \<Rightarrow> u"
  obtain o1 g1 c1 where r: "reconcile kc auth_keys check_mode diff_mode ps ?bu g = (o1, g1, c1)"
    by (cases "reconcile kc auth_keys check_mode diff_mode ps ?bu g") auto
  with main_unfold [OF h, of auth_keys check_mode diff_mode] assms(1)
  have "calls = ?l # c1" by simp
  with assms(2) nl have "UpdateUser body realm \<in> set c1" by auto
  note rb = reconcile_update_body [OF r this]
  then have "?bu \<noteq> fmempty" by blast
  then obtain R where R: "found = Some R" by (cases found) auto
  from rb normalize_attributes_get [OF h(2)] h show ?thesis unfolding R by auto
qed

lemma reconcile_no_change:
  assumes "R \<noteq> fmempty" "params_get ps ''state'' = PStr ''present''"
    "R ++\<^sub>f changeset_of auth_keys ps R = R" "fmlookup R ''username'' = Some n"
  shows "reconcile kc auth_keys check_mode diff_mode ps R g =
     (ExitJson \<lparr>changed = False, msg = NoChangesRequired n, diff = PDict fmempty,
                user = PDict R, end_state = Some R\<rparr>, g, [])"
  using assms by (simp add: reconcile_def process_update_def getitem_def Let_def)

lemma normalize_attributes_none:
  "params_get ps0 ''attributes'' = PNone \<Longrightarrow> normalize_attributes ps0 = Inr ps0"
  by (simp add: normalize_attributes_def)

lemma normalize_attributes_unsupplied:
  assumes "normalize_attributes ps0 = Inr ps" "params_get ps0 f = PNone"
  shows "params_get ps f = PNone"
proof (cases "f = ''attributes''")
  case True
  with assms(2) normalize_attributes_none [of ps0] assms(1) show ?thesis by simp
next
  case False
  with normalize_attributes_get [OF assms(1)] assms(2) show ?thesis by simp
qed

lemma process_update_state:
  "process_update kc check_mode diff_mode r realm before_user desired_user g = (out, g', calls) \<Longrightarrow>
     UpdateUser b rl \<in> set calls \<Longrightarrow> update_user kc b rl g = Inr g1 \<Longrightarrow> g' = g1"
  by (auto simp: process_update_def Let_def split: if_splits sum.splits option.splits)

lemma reconcile_update_state:
  assumes "reconcile kc auth_keys check_mode diff_mode ps before_user g = (out, g', calls)"
    and "UpdateUser b rl \<in> set calls" "update_user kc b rl g = Inr g1"
  shows "g' = g1"
  using assms unfolding reconcile_def Let_def
  by (auto split: if_splits dest: process_creation_no_update process_deletion_no_update
      process_update_state)

lemma main_update_state:
  assumes "main kc auth_keys check_mode diff_mode ps0 g = (out, g', calls)"
    and "UpdateUser body realm \<in> set calls" "update_user kc body realm g = Inr g1"
  shows "g' = g1"
proof -
  let ?l = "lookup_call (params_get ps0 ''id'') (params_get ps0 ''name'') (params_get ps0 ''realm'')"
  have nl: "UpdateUser body realm \<noteq> ?l" by (simp add: lookup_call_def)
  from main_early [OF assms(1)] assms(2) nl
  obtain ps found where h: "get_token kc ps0 = None" "normalize_attributes ps0 = Inr ps"
        "lookup_user kc (params_get ps0 ''id'') (params_get ps0 ''name'')
             (params_get ps0 ''realm'') g = Inr found" by auto
  let ?bu = "case found of None \<Rightarrow> fmempty | Some u \<Rightarrow> u"
  obtain o1 g2 c1 where r: "reconcile kc auth_keys check_mode diff_mode ps ?bu g = (o1, g2, c1)"
    by (cases "reconcile kc auth_keys check_mode diff_mode ps ?bu g") auto
  with main_unfold [OF h, of auth_keys check_mode diff_mode] assms(1)
  have "calls = ?l # c1" "g' = g2" by simp_all
  with assms(2) nl have "UpdateUser body realm \<in> set c1" by auto
  from reconcile_update_state [OF r this assms(3)] \<open>g' = g2\<close> show ?thesis by simp
qed

lemma store_api_simps:
  "get_token store_api ps = None"
  "lookup_user store_api uid username realm g = Inr g"
  "update_user store_api body realm g = Inr (Some body)"
  "delete_user store_api uid realm g = Inr None"
  by (simp_all add: store_api_def lookup_user_def)

lemma map_of_map_attributes_self:
  "map_of (map (\<lambda>(k, v). if k = a then (k, w) else (k, v)) ps) a = map_option (\<lambda>_. w) (map_of ps a)"
  by (induction ps) auto

lemma normalize_attributes_supplied:
  assumes "normalize_attributes ps0 = Inr ps"
  shows "params_get ps x \<noteq> PNone \<longleftrightarrow> params_get ps0 x \<noteq> PNone"
proof (cases "x = ''attributes''")
  case False
  with normalize_attributes_get [OF assms] show ?thesis by simp
next
  case True
  show ?thesis
  proof (cases "params_get ps0 ''attributes'' = PNone")
    case n: True
    with normalize_attributes_none assms have "ps = ps0" by simp
    then show ?thesis by simp
  next
    case n: False
    with assms obtain d where d: "params_get ps0 ''attributes'' = PDict d"
      "ps = map (\<lambda>(k, v). if k = ''attributes'' then (k, PDict (fmmap normalize_value d)) else (k, v)) ps0"
      by (auto simp: normalize_attributes_def split: pyval.splits)
    from n have "map_of ps0 ''attributes'' \<noteq> None"
      by (cases "map_of ps0 ''attributes''") (simp_all add: params_get_def)
    then have "params_get ps ''attributes'' = PDict (fmmap normalize_value d)"
      unfolding d(2) params_get_def map_of_map_attributes_self by auto
    with n True show ?thesis by simp
  qed
qed

lemma normalize_attributes_user_params:
  assumes "normalize_attributes ps0 = Inr ps"
  shows "user_params auth_keys ps = user_params auth_keys ps0"
  unfolding user_params_def normalize_attributes_keys [OF assms]
  using normalize_attributes_supplied [OF assms] by simp

section \<open>Runs against the storing gateway\<close>

lemma separate_sole:
  assumes "separate ups" "p \<in> set ups"
  shows "\<forall>q \<in> set ups. q \<noteq> p \<longrightarrow> translated q \<noteq> translated p"
proof -
  from assms(1) have "inj_on translated (set ups)" by (simp add: separate_def distinct_map)
  with assms(2) show ?thesis by (auto dest: inj_onD)
qed

lemma separate_closed:
  "separate ups \<Longrightarrow> p \<in> set ups \<Longrightarrow> q \<in> set ups \<Longrightarrow> translated q = p \<Longrightarrow> q = p"
  by (simp add: separate_def)

lemma changeset_of_settled:
  assumes sep: "separate (user_params auth_keys ps)"
  shows "(R ++\<^sub>f changeset_of auth_keys ps R) ++\<^sub>f
           changeset_of auth_keys ps (R ++\<^sub>f changeset_of auth_keys ps R)
         = R ++\<^sub>f changeset_of auth_keys ps R"
proof (rule changeset_agrees)
  let ?C = "changeset_of auth_keys ps R"
  fix p
  assume p: "p \<in> set (user_params auth_keys ps)" "recorded ps (R ++\<^sub>f ?C) p"
  show "fmlookup (R ++\<^sub>f ?C) (translated p) = Some (params_get ps p)"
  proof (cases "recorded ps R p")
    case True
    from changeset_of_sole [OF p(1) True separate_sole [OF sep p(1)]]
    show ?thesis by (simp add: fmlookup_dom_iff)
  next
    case False
    have "fmlookup ?C p = None"
    proof (rule ccontr)
      assume "fmlookup ?C p \<noteq> None"
      then obtain w where "fmlookup ?C p = Some w" by auto
      from changeset_of_origin [OF this]
      obtain q where q: "q \<in> set (user_params auth_keys ps)" "recorded ps R q" "translated q = p"
        by blast
      from separate_closed [OF sep p(1) q(1,3)] q(2) False show False by simp
    qed
    then have "fmlookup (R ++\<^sub>f ?C) p = fmlookup R p" by (simp add: fmlookup_dom_iff)
    then have "old_value_of (R ++\<^sub>f ?C) p = old_value_of R p" by (simp add: old_value_of_def)
    with p(2) False show ?thesis by (simp add: recorded_def)
  qed
qed

lemma changeset_of_created:
  assumes sep: "separate (user_params auth_keys ps)"
    and S: "S = changeset_of auth_keys ps fmempty \<or>
            (''id'' |\<notin>| fmdom (changeset_of auth_keys ps fmempty) \<and>
             S = fmupd ''id'' i (changeset_of auth_keys ps fmempty))"
  shows "S ++\<^sub>f changeset_of auth_keys ps S = S"
proof (rule changeset_agrees)
  let ?C = "changeset_of auth_keys ps fmempty"
  fix p
  assume p: "p \<in> set (user_params auth_keys ps)" "recorded ps S p"
  from user_params_supplied [OF p(1)] have "recorded ps fmempty p"
    by (simp add: recorded_def old_value_of_def)
  from changeset_of_sole [OF p(1) this separate_sole [OF sep p(1)]]
  have c: "fmlookup ?C (translated p) = Some (params_get ps p)" .
  from S show "fmlookup S (translated p) = Some (params_get ps p)"
  proof
    assume "S = ?C" with c show ?thesis by simp
  next
    assume a: "''id'' |\<notin>| fmdom ?C \<and> S = fmupd ''id'' i ?C"
    with c have "translated p \<noteq> ''id''" by (auto simp: fmlookup_dom_iff)
    with a c show ?thesis by simp
  qed
qed

lemma fmdom_nonempty: "k |\<in>| fmdom m \<Longrightarrow> m \<noteq> fmempty"
  by auto

lemma stored_Some: "stored (Some S) = S"
  by (simp add: stored_def)

lemma main_store_unfold:
  assumes "normalize_attributes ps0 = Inr ps"
  shows "main store_api auth_keys check_mode diff_mode ps0 g =
     (case reconcile store_api auth_keys check_mode diff_mode ps
             (stored g) g of
        (out, g1, calls) \<Rightarrow>
          (out, g1, lookup_call (params_get ps0 ''id'') (params_get ps0 ''name'')
                      (params_get ps0 ''realm'') # calls))"
  unfolding stored_def by (rule main_unfold [OF _ assms]) (simp_all add: store_api_simps)

lemma main_store_exit:
  assumes "main store_api auth_keys check_mode diff_mode ps0 g = (ExitJson r, g1, calls)"
  shows "\<exists>ps. normalize_attributes ps0 = Inr ps"
  using main_early [OF assms] by auto

lemma reconcile_absent_missing:
  assumes "params_get ps ''state'' = PStr ''absent''"
  shows "\<exists>r. reconcile kc auth_keys check_mode diff_mode ps fmempty g = (ExitJson r, g, []) \<and>
           \<not> changed r \<and> end_state r = Some fmempty"
  using assms by (simp add: reconcile_def Let_def)

lemma reconcile_store_create:
  assumes "params_get ps ''state'' = PStr ''present''"
    and "reconcile store_api auth_keys False diff_mode ps fmempty g = (ExitJson r1, g1, c1)"
  shows "\<exists>S. g1 = Some S \<and> end_state r1 = Some S \<and> changed r1 \<and>
           (S = changeset_of auth_keys ps fmempty \<or>
            (''id'' |\<notin>| fmdom (changeset_of auth_keys ps fmempty) \<and>
             S = fmupd ''id'' (PStr ''generated-id'') (changeset_of auth_keys ps fmempty))) \<and>
           ''username'' |\<in>| fmdom S \<and> (\<exists>c \<in> set c1. mutating c)"
  using assms
  by (auto simp: reconcile_def process_creation_def store_api_def getitem_def Let_def
      fmlookup_dom_iff split: if_splits option.splits)

lemma reconcile_store_update:
  assumes "R \<noteq> fmempty" "params_get ps ''state'' = PStr ''present''"
    and "R ++\<^sub>f changeset_of auth_keys ps R \<noteq> R"
    and "reconcile store_api auth_keys False diff_mode ps R g = (ExitJson r1, g1, c1)"
  shows "g1 = Some (R ++\<^sub>f changeset_of auth_keys ps R) \<and>
         end_state r1 = Some (R ++\<^sub>f changeset_of auth_keys ps R) \<and> changed r1 \<and>
         (\<exists>c \<in> set c1. mutating c)"
  using assms
  by (auto simp: reconcile_def process_update_def store_api_def getitem_def Let_def
      split: if_splits option.splits)

lemma reconcile_store_delete:
  assumes "R \<noteq> fmempty" "params_get ps ''state'' = PStr ''absent''"
    and "reconcile store_api auth_keys False diff_mode ps R g = (ExitJson r1, g1, c1)"
  shows "g1 = None \<and> end_state r1 = Some fmempty \<and> changed r1 \<and> (\<exists>c \<in> set c1. mutating c)"
  using assms
  by (auto simp: reconcile_def process_deletion_def store_api_def getitem_def Let_def
      split: if_splits option.splits)

lemma main_store_no_change:
  assumes "normalize_attributes ps0 = Inr ps" "params_get ps ''state'' = PStr ''present''"
    and "S \<noteq> fmempty" "S ++\<^sub>f changeset_of auth_keys ps S = S" "''username'' |\<in>| fmdom S"
  shows "\<exists>r2. main store_api auth_keys check_mode diff_mode ps0 (Some S) =
           (ExitJson r2, Some S,
            [lookup_call (params_get ps0 ''id'') (params_get ps0 ''name'')
               (params_get ps0 ''realm'')]) \<and>
         \<not> changed r2 \<and> end_state r2 = Some S"
proof -
  from assms(5) obtain n where n: "fmlookup S ''username'' = Some n"
    by (auto simp: fmlookup_dom_iff)
  show ?thesis
    unfolding main_store_unfold [OF assms(1)] stored_Some
      reconcile_no_change [OF assms(3) assms(2) assms(4) n]
    by simp
qed

lemma main_store_absent_missing:
  assumes "normalize_attributes ps0 = Inr ps" "params_get ps ''state'' = PStr ''absent''"
    and "stored g = fmempty"
  shows "\<exists>r2. main store_api auth_keys check_mode diff_mode ps0 g =
           (ExitJson r2, g,
            [lookup_call (params_get ps0 ''id'') (params_get ps0 ''name'')
               (params_get ps0 ''realm'')]) \<and>
         \<not> changed r2 \<and> end_state r2 = Some fmempty"
proof -
  from reconcile_absent_missing [OF assms(2), of store_api auth_keys check_mode diff_mode g]
  obtain r where "reconcile store_api auth_keys check_mode diff_mode ps fmempty g
      = (ExitJson r, g, [])" "\<not> changed r" "end_state r = Some fmempty" by blast
  then show ?thesis unfolding main_store_unfold [OF assms(1)] assms(3) by simp
qed

section \<open>Attribute normalization\<close>

text \<open>
  C9. A value of an attribute that is not a list becomes the list of that one value, and a
  list stays as it is: normalizing \<open>v\<close> and normalizing \<open>[v]\<close> give the same list.
\<close>

theorem normalize_round_trip:
  "(\<not> is_list v \<longrightarrow> normalize_value v = PList [v] \<and> normalize_value v = normalize_value (PList [v])) \<and>
   normalize_value (PList L) = PList L"
  by (simp add: normalize_value_def)

theorem normalize_round_trip_witness:
  "\<not> is_list (PStr ''v1'') \<and> normalize_value (PStr ''v1'') = PList [PStr ''v1''] \<and>
   normalize_value (PStr ''v1'') = normalize_value (PList [PStr ''v1''])"
  using normalize_round_trip [of "PStr ''v1''" "[]"] by auto

section \<open>Name translation\<close>




section \<open>What the changeset holds\<close>

text \<open>
  C1, as stated, fails: the changeset of a run that gives \<^verbatim>\<open>name\<close> and \<^verbatim>\<open>first_name\<close> holds
  \<^verbatim>\<open>username\<close> and \<^verbatim>\<open>firstName\<close> although the remote resource has both with the very same
  values. And when the caller also gives the alias \<^verbatim>\<open>username\<close> for the connection user, the
  changeset holds \<^verbatim>\<open>username\<close>, written by \<^verbatim>\<open>name\<close>, although the remote resource has under
  \<^verbatim>\<open>username\<close> just the value of that option.
\<close>

theorem changeset_minimality_counterexample:
  "\<not> (''username'' \<in> fmdom' (changeset_of kc_keys bob_params bob_user) \<longleftrightarrow>
        params_get bob_params ''name'' \<noteq> PNone \<and>
        (''username'' \<notin> fmdom' bob_user \<or>
         fmlookup bob_user ''username'' \<noteq> Some (params_get bob_params ''name''))) \<and>
   \<not> (''firstName'' \<in> fmdom' (changeset_of kc_keys bob_params bob_user) \<longleftrightarrow>
        params_get bob_params ''first_name'' \<noteq> PNone \<and>
        (''firstName'' \<notin> fmdom' bob_user \<or>
         fmlookup bob_user ''firstName'' \<noteq> Some (params_get bob_params ''first_name''))) \<and>
   \<not> (''username'' \<in> fmdom' (changeset_of kc_keys alias_params admin_user) \<longleftrightarrow>
        params_get alias_params ''username'' \<noteq> PNone \<and>
        (''username'' \<notin> fmdom' admin_user \<or>
         fmlookup admin_user ''username'' \<noteq> Some (params_get alias_params ''username'')))"
proof -
  have c1: "fmlookup (changeset_of kc_keys bob_params bob_user) ''username''
              = Some (PStr ''bob'')"
    and c2: "fmlookup (changeset_of kc_keys bob_params bob_user) ''firstName''
              = Some (PStr ''Bob'')"
    by code_simp+
  have p1: "params_get bob_params ''name'' = PStr ''bob''"
    and p2: "params_get bob_params ''first_name'' = PStr ''Bob''"
    by code_simp+
  have r1: "fmlookup bob_user ''username'' = Some (PStr ''bob'')"
    and r2: "fmlookup bob_user ''firstName'' = Some (PStr ''Bob'')"
    by code_simp+
  have c3: "fmlookup (changeset_of kc_keys alias_params admin_user) ''username''
              = Some (PStr ''bob'')"
    and p3: "params_get alias_params ''username'' = PStr ''admin''"
    and r3: "fmlookup admin_user ''username'' = Some (PStr ''admin'')"
    by code_simp+
  from c3 r3 have
    "''username'' \<in> fmdom' (changeset_of kc_keys alias_params admin_user)"
    "''username'' \<in> fmdom' admin_user"
    by (auto intro: fmdom'I)
  with p3 r3 have third:
    "\<not> (''username'' \<in> fmdom' (changeset_of kc_keys alias_params admin_user) \<longleftrightarrow>
        params_get alias_params ''username'' \<noteq> PNone \<and>
        (''username'' \<notin> fmdom' admin_user \<or>
         fmlookup admin_user ''username'' \<noteq> Some (params_get alias_params ''username'')))"
    by simp
  from c1 c2 r1 r2 have
    "''username'' \<in> fmdom' (changeset_of kc_keys bob_params bob_user)"
    "''firstName'' \<in> fmdom' (changeset_of kc_keys bob_params bob_user)"
    "''username'' \<in> fmdom' bob_user" "''firstName'' \<in> fmdom' bob_user"
    by (auto intro: fmdom'I)
  with p1 p2 r1 r2 third show ?thesis by simp
qed

text \<open>
  C1, amended. Every entry of the changeset comes from a parameter of the user (an option
  that is not \<^verbatim>\<open>None\<close> and passes the filter of \<^verbatim>\<open>user_params\<close>) and has its value. A \<^verbatim>\<open>name\<close>
  among them always puts \<^verbatim>\<open>username\<close> in the changeset, whatever the remote resource holds.
  A parameter other than \<^verbatim>\<open>name\<close> and \<^verbatim>\<open>user_groups\<close> whose remote name is its own name, and
  under whose name no other parameter is written, is in the changeset if and only if the
  remote resource lacks it or holds another value, and then with the given value.
\<close>

theorem changeset_minimality_amended:
  "(\<forall>k v. fmlookup (changeset_of auth_keys ps R) k = Some v \<longrightarrow>
      (\<exists>p \<in> set (user_params auth_keys ps).
         k = translated p \<and> v = params_get ps p \<and> params_get ps p \<noteq> PNone)) \<and>
   (''name'' \<in> set (user_params auth_keys ps) \<longrightarrow>
      ''username'' \<in> fmdom' (changeset_of auth_keys ps R)) \<and>
   (\<forall>p \<in> set (user_params auth_keys ps).
      p \<noteq> ''name'' \<and> p \<noteq> ''user_groups'' \<and> camel p = p \<and>
      (\<forall>q \<in> set (user_params auth_keys ps). q \<noteq> p \<longrightarrow> translated q \<noteq> p) \<longrightarrow>
      (p \<in> fmdom' (changeset_of auth_keys ps R) \<longleftrightarrow>
         p \<notin> fmdom' R \<or> fmlookup R p \<noteq> Some (params_get ps p)) \<and>
      (p \<in> fmdom' (changeset_of auth_keys ps R) \<longrightarrow>
         fmlookup (changeset_of auth_keys ps R) p = Some (params_get ps p)))"
proof (intro conjI allI impI ballI)
  fix k v
  assume "fmlookup (changeset_of auth_keys ps R) k = Some v"
  from changeset_of_origin [OF this] user_params_supplied [of _ auth_keys ps]
  show "\<exists>p \<in> set (user_params auth_keys ps).
         k = translated p \<and> v = params_get ps p \<and> params_get ps p \<noteq> PNone"
    by blast
next
  assume "''name'' \<in> set (user_params auth_keys ps)"
  moreover have "recorded ps R ''name''" by (simp add: recorded_def)
  ultimately have "translated ''name'' \<in> fmdom' (changeset_of auth_keys ps R)"
    unfolding changeset_of_dom by blast
  then show "''username'' \<in> fmdom' (changeset_of auth_keys ps R)"
    by (simp add: translated_name)
next
  fix p
  assume p: "p \<in> set (user_params auth_keys ps)"
    and a: "p \<noteq> ''name'' \<and> p \<noteq> ''user_groups'' \<and> camel p = p \<and>
      (\<forall>q \<in> set (user_params auth_keys ps). q \<noteq> p \<longrightarrow> translated q \<noteq> p)"
  from a have tp: "translated p = p" by (simp add: translated_plain)
  from a tp have sole: "\<forall>q \<in> set (user_params auth_keys ps). q \<noteq> p \<longrightarrow> translated q \<noteq> translated p"
    by simp
  have rec: "recorded ps R p \<longleftrightarrow> (p \<notin> fmdom' R \<or> fmlookup R p \<noteq> Some (params_get ps p))"
    using a user_params_supplied [OF p] by (simp add: recorded_plain)
  have dom: "p \<in> fmdom' (changeset_of auth_keys ps R) \<longleftrightarrow> recorded ps R p"
  proof
    assume "p \<in> fmdom' (changeset_of auth_keys ps R)"
    then obtain q where q: "q \<in> set (user_params auth_keys ps)" "recorded ps R q" "translated q = p"
      unfolding changeset_of_dom by blast
    with a have "q = p" by blast
    with q(2) show "recorded ps R p" by simp
  next
    assume "recorded ps R p"
    with p have "translated p \<in> fmdom' (changeset_of auth_keys ps R)"
      unfolding changeset_of_dom by blast
    with tp show "p \<in> fmdom' (changeset_of auth_keys ps R)" by simp
  qed
  from dom rec
  show "p \<in> fmdom' (changeset_of auth_keys ps R) \<longleftrightarrow>
         p \<notin> fmdom' R \<or> fmlookup R p \<noteq> Some (params_get ps p)" by simp
  assume "p \<in> fmdom' (changeset_of auth_keys ps R)"
  with dom have "recorded ps R p" by simp
  from changeset_of_sole [OF p this sole] tp
  show "fmlookup (changeset_of auth_keys ps R) p = Some (params_get ps p)" by simp
qed

theorem changeset_minimality_amended_witness:
  "''name'' \<in> set (user_params kc_keys bob_params) \<and>
   ''enabled'' \<in> set (user_params kc_keys bob_params) \<and>
   ''username'' \<in> fmdom' (changeset_of kc_keys bob_params bob_user) \<and>
   ''enabled'' \<notin> fmdom' (changeset_of kc_keys bob_params bob_user)"
proof -
  have m: "''name'' \<in> set (user_params kc_keys bob_params)"
    "''enabled'' \<in> set (user_params kc_keys bob_params)"
    and e: "params_get bob_params ''enabled'' = PBool True"
    and c: "camel ''enabled'' = ''enabled''"
    and r: "fmlookup bob_user ''enabled'' = Some (PBool True)"
    and o: "\<forall>q \<in> set (user_params kc_keys bob_params). q \<noteq> ''enabled'' \<longrightarrow> translated q \<noteq> ''enabled''"
    by code_simp+
  note th = changeset_minimality_amended [of kc_keys bob_params bob_user]
  from th m(1) have 1: "''username'' \<in> fmdom' (changeset_of kc_keys bob_params bob_user)"
    by blast
  from r have d: "''enabled'' \<in> fmdom' bob_user" by (rule fmdom'I)
  from th [THEN conjunct2, THEN conjunct2, THEN bspec, OF m(2)] c o
  have "''enabled'' \<in> fmdom' (changeset_of kc_keys bob_params bob_user) \<longleftrightarrow>
         ''enabled'' \<notin> fmdom' bob_user \<or>
         fmlookup bob_user ''enabled'' \<noteq> Some (params_get bob_params ''enabled'')"
    by simp
  with d e r have 2: "''enabled'' \<notin> fmdom' (changeset_of kc_keys bob_params bob_user)" by simp
  from m 1 2 show ?thesis by blast
qed

section \<open>Check mode\<close>

text \<open>
  C7. A run in check mode leaves the remote server as it is and makes no call that creates,
  updates or deletes. Once the token is there and the attributes are normalized, it makes the
  lookup, and only the lookup; when the resource it fetched differs from what is asked, the
  result says so, with the fetched resource and the merged one as the diff.
\<close>

theorem dry_run_safety:
  assumes "main kc auth_keys True diff_mode ps0 g = (out, g', calls)"
  shows "g' = g \<and> (\<forall>c \<in> set calls. \<not> mutating c) \<and>
    (\<forall>ps. get_token kc ps0 = None \<and> normalize_attributes ps0 = Inr ps \<longrightarrow>
       calls = [lookup_call (params_get ps0 ''id'') (params_get ps0 ''name'')
                  (params_get ps0 ''realm'')]) \<and>
    (\<forall>ps R. get_token kc ps0 = None \<and> normalize_attributes ps0 = Inr ps \<and>
       lookup_user kc (params_get ps0 ''id'') (params_get ps0 ''name'')
         (params_get ps0 ''realm'') g = Inr (Some R) \<and>
       R \<noteq> fmempty \<and> params_get ps0 ''state'' = PStr ''present'' \<and>
       R ++\<^sub>f changeset_of auth_keys ps R \<noteq> R \<longrightarrow>
       out = ExitJson \<lparr>changed = True, msg = NoMsg,
               diff = (if diff_mode
                       then diff_dict (PDict R) (PDict (R ++\<^sub>f changeset_of auth_keys ps R))
                       else PDict fmempty),
               user = PStr [], end_state = None\<rparr>)"
proof -
  let ?l = "lookup_call (params_get ps0 ''id'') (params_get ps0 ''name'') (params_get ps0 ''realm'')"
  have calls: "g' = g \<and> (calls = [] \<or> calls = [?l])"
  proof -
    from main_early [OF assms] show ?thesis
    proof
      assume "\<exists>ps found. get_token kc ps0 = None \<and> normalize_attributes ps0 = Inr ps \<and>
           lookup_user kc (params_get ps0 ''id'') (params_get ps0 ''name'')
             (params_get ps0 ''realm'') g = Inr found"
      then obtain ps found where h: "get_token kc ps0 = None" "normalize_attributes ps0 = Inr ps"
        "lookup_user kc (params_get ps0 ''id'') (params_get ps0 ''name'')
             (params_get ps0 ''realm'') g = Inr found" by blast
      obtain o1 g1 c1 where r: "reconcile kc auth_keys True diff_mode ps
             (case found of None \<Rightarrow> fmempty | Some u \<Rightarrow> u) g = (o1, g1, c1)"
        by (cases "reconcile kc auth_keys True diff_mode ps
             (case found of None \<Rightarrow> fmempty | Some u \<Rightarrow> u) g") auto
      from reconcile_check [OF r] main_unfold [OF h, of auth_keys True diff_mode] r assms
      show ?thesis by simp
    qed blast
  qed
  have one: "calls = [?l]" if "get_token kc ps0 = None" "normalize_attributes ps0 = Inr ps" for ps
    using that assms
    by (auto simp: main_def Let_def split: sum.splits prod.splits dest: reconcile_check)
  have upd: "out = ExitJson \<lparr>changed = True, msg = NoMsg,
               diff = (if diff_mode
                       then diff_dict (PDict R) (PDict (R ++\<^sub>f changeset_of auth_keys ps R))
                       else PDict fmempty),
               user = PStr [], end_state = None\<rparr>"
    if h: "get_token kc ps0 = None" "normalize_attributes ps0 = Inr ps"
       "lookup_user kc (params_get ps0 ''id'') (params_get ps0 ''name'')
         (params_get ps0 ''realm'') g = Inr (Some R)"
      and r: "R \<noteq> fmempty" "params_get ps0 ''state'' = PStr ''present''"
       "R ++\<^sub>f changeset_of auth_keys ps R \<noteq> R" for ps R
  proof -
    from normalize_attributes_get [OF h(2), of "''state''"] r(2)
    have "params_get ps ''state'' = PStr ''present''" by simp
    note ru = reconcile_check_update [OF r(1) this r(3), of kc diff_mode g]
    have "main kc auth_keys True diff_mode ps0 g =
        (ExitJson \<lparr>changed = True, msg = NoMsg,
               diff = (if diff_mode
                       then diff_dict (PDict R) (PDict (R ++\<^sub>f changeset_of auth_keys ps R))
                       else PDict fmempty),
               user = PStr [], end_state = None\<rparr>, g,
         [lookup_call (params_get ps0 ''id'') (params_get ps0 ''name'') (params_get ps0 ''realm'')])"
      by (simp only: main_unfold [OF h] option.case ru prod.case)
    with assms show ?thesis by simp
  qed
  from calls have "\<forall>c \<in> set calls. \<not> mutating c"
    by (auto simp: lookup_call_not_mutating)
  with calls one upd show ?thesis by blast
qed

theorem dry_run_safety_witness:
  "main store_api kc_keys True True email_params (Some bob_user) =
     (ExitJson \<lparr>changed = True, msg = NoMsg,
        diff = diff_dict (PDict bob_user) (PDict (fmupd ''email'' (PStr ''x@y.com'') bob_user)),
        user = PStr [], end_state = None\<rparr>,
      Some bob_user, [GetUserByUserid (PStr ''u1'') (PStr ''master'')]) \<and>
   \<not> mutating (GetUserByUserid (PStr ''u1'') (PStr ''master''))"
proof -
  have run: "main store_api kc_keys True True email_params (Some bob_user) =
     (ExitJson \<lparr>changed = True, msg = NoMsg,
        diff = diff_dict (PDict bob_user) (PDict (fmupd ''email'' (PStr ''x@y.com'') bob_user)),
        user = PStr [], end_state = None\<rparr>,
      Some bob_user, [GetUserByUserid (PStr ''u1'') (PStr ''master'')])"
    by code_simp
  from dry_run_safety [OF run] run show ?thesis by simp
qed

section \<open>Creation\<close>

text \<open>
  C8. When the resource is missing and \<^verbatim>\<open>state\<close> is \<^verbatim>\<open>present\<close>: without a \<^verbatim>\<open>name\<close> the run fails
  with the lookup as its only call; with a \<^verbatim>\<open>name\<close>, outside check mode, the call after the
  lookup creates the user from the changeset.
\<close>

theorem create_validation:
  assumes "get_token kc ps0 = None" and "normalize_attributes ps0 = Inr ps"
    and "lookup_user kc (params_get ps0 ''id'') (params_get ps0 ''name'')
           (params_get ps0 ''realm'') g = Inr found"
    and "found = None \<or> found = Some fmempty"
    and "params_get ps0 ''state'' = PStr ''present''"
  shows "(params_get ps0 ''name'' = PNone \<longrightarrow>
            main kc auth_keys check_mode diff_mode ps0 g =
              (Failed (FailJson ''name must be specified when creating a new user''), g,
               [lookup_call (params_get ps0 ''id'') (params_get ps0 ''name'')
                  (params_get ps0 ''realm'')])) \<and>
         (params_get ps0 ''name'' \<noteq> PNone \<and> \<not> check_mode \<longrightarrow>
            (\<exists>out g' rest. main kc auth_keys check_mode diff_mode ps0 g =
               (out, g',
                lookup_call (params_get ps0 ''id'') (params_get ps0 ''name'')
                  (params_get ps0 ''realm'') #
                CreateUser (changeset_of auth_keys ps fmempty) (params_get ps0 ''realm'') # rest)))"
proof -
  from assms(4) have e: "(case found of None \<Rightarrow> fmempty | Some u \<Rightarrow> u) = fmempty" by auto
  have get: "params_get ps ''state'' = PStr ''present''"
    "params_get ps ''name'' = params_get ps0 ''name''"
    "params_get ps ''realm'' = params_get ps0 ''realm''"
    using normalize_attributes_get [OF assms(2)] assms(5) by simp_all
  note m = main_unfold [OF assms(1-3), of auth_keys check_mode diff_mode, unfolded e]
  have 1: "main kc auth_keys check_mode diff_mode ps0 g =
              (Failed (FailJson ''name must be specified when creating a new user''), g,
               [lookup_call (params_get ps0 ''id'') (params_get ps0 ''name'')
                  (params_get ps0 ''realm'')])" if "params_get ps0 ''name'' = PNone"
    using that get by (simp add: m reconcile_missing_no_name)
  have 2: "\<exists>out g' rest. main kc auth_keys check_mode diff_mode ps0 g =
               (out, g',
                lookup_call (params_get ps0 ''id'') (params_get ps0 ''name'')
                  (params_get ps0 ''realm'') #
                CreateUser (changeset_of auth_keys ps fmempty) (params_get ps0 ''realm'') # rest)"
    if "params_get ps0 ''name'' \<noteq> PNone" "\<not> check_mode"
  proof -
    from that get reconcile_missing_create [of ps kc auth_keys diff_mode g]
    obtain out g' rest where "reconcile kc auth_keys check_mode diff_mode ps fmempty g =
      (out, g', CreateUser (changeset_of auth_keys ps fmempty) (params_get ps0 ''realm'') # rest)"
      by auto
    then show ?thesis by (simp add: m)
  qed
  from 1 2 show ?thesis by blast
qed

theorem create_validation_witness:
  "main store_api kc_keys False False id_params None =
     (Failed (FailJson ''name must be specified when creating a new user''), None,
      [GetUserByUserid (PStr ''u1'') (PStr ''master'')]) \<and>
   params_get id_params ''name'' = PNone \<and>
   params_get id_params ''state'' = PStr ''present'' \<and>
   params_get bob_params ''name'' = PStr ''bob'' \<and>
   snd (snd (main store_api kc_keys False False bob_params None)) =
     [GetUserByName (PStr ''bob'') (PStr ''master''),
      CreateUser (changeset_of kc_keys bob_params fmempty) (PStr ''master''),
      GetUserByName (PStr ''bob'') (PStr ''master'')]"
proof -
  have t: "get_token store_api id_params = None"
    and n: "normalize_attributes id_params = Inr id_params"
    and l: "lookup_user store_api (params_get id_params ''id'')
         (params_get id_params ''name'')
         (params_get id_params ''realm'') None = Inr None"
    and s: "params_get id_params ''state'' = PStr ''present''"
    and nm: "params_get id_params ''name'' = PNone"
    and c: "lookup_call (params_get id_params ''id'')
         (params_get id_params ''name'')
         (params_get id_params ''realm'') = GetUserByUserid (PStr ''u1'') (PStr ''master'')"
    by code_simp+
  have t': "get_token store_api bob_params = None"
    and n': "normalize_attributes bob_params = Inr bob_params"
    and l': "lookup_user store_api (params_get bob_params ''id'')
         (params_get bob_params ''name'')
         (params_get bob_params ''realm'') None = Inr None"
    and s': "params_get bob_params ''state'' = PStr ''present''"
    and nm': "params_get bob_params ''name'' = PStr ''bob''"
    and c': "lookup_call (params_get bob_params ''id'')
         (params_get bob_params ''name'')
         (params_get bob_params ''realm'') = GetUserByName (PStr ''bob'') (PStr ''master'')"
    and r': "params_get bob_params ''realm'' = PStr ''master''"
    by code_simp+
  have len: "length (snd (snd (main store_api kc_keys False False bob_params None))) = 3"
    and lst: "last (snd (snd (main store_api kc_keys False False bob_params None)))
       = GetUserByName (PStr ''bob'') (PStr ''master'')"
    by code_simp+
  from create_validation [OF t n l _ s, of kc_keys False False] nm c
  have 1: "main store_api kc_keys False False id_params None =
     (Failed (FailJson ''name must be specified when creating a new user''), None,
      [GetUserByUserid (PStr ''u1'') (PStr ''master'')])" by simp
  from create_validation [OF t' n' l' _ s', of kc_keys False False] nm' c' r'
  obtain rest where "snd (snd (main store_api kc_keys False False bob_params None)) =
     GetUserByName (PStr ''bob'') (PStr ''master'') #
     CreateUser (changeset_of kc_keys bob_params fmempty) (PStr ''master'') # rest"
    by auto
  with len lst
  have 2: "snd (snd (main store_api kc_keys False False bob_params None)) =
     [GetUserByName (PStr ''bob'') (PStr ''master''),
      CreateUser (changeset_of kc_keys bob_params fmempty) (PStr ''master''),
      GetUserByName (PStr ''bob'') (PStr ''master'')]"
    by (cases rest) auto
  from 1 2 nm s nm' show ?thesis by simp
qed

text \<open>
  C10. In check mode, a creation (resource missing, \<^verbatim>\<open>state\<close> \<^verbatim>\<open>present\<close>, a \<^verbatim>\<open>name\<close> given) exits
  with \<^verbatim>\<open>changed\<close> false and no \<^verbatim>\<open>end_state\<close>, whereas an update and a deletion in check mode
  exit with \<^verbatim>\<open>changed\<close> true.
\<close>

theorem check_mode_creation_unchanged:
  assumes "get_token kc ps0 = None" and "normalize_attributes ps0 = Inr ps"
    and "lookup_user kc (params_get ps0 ''id'') (params_get ps0 ''name'')
           (params_get ps0 ''realm'') g = Inr found"
  shows "((found = None \<or> found = Some fmempty) \<and> params_get ps0 ''state'' = PStr ''present'' \<and>
           params_get ps0 ''name'' \<noteq> PNone \<longrightarrow>
            (\<exists>r. fst (main kc auth_keys True diff_mode ps0 g) = ExitJson r \<and>
                  \<not> changed r \<and> end_state r = None)) \<and>
         (\<forall>R. found = Some R \<and> R \<noteq> fmempty \<and> params_get ps0 ''state'' = PStr ''present'' \<and>
               R ++\<^sub>f changeset_of auth_keys ps R \<noteq> R \<longrightarrow>
            (\<exists>r. fst (main kc auth_keys True diff_mode ps0 g) = ExitJson r \<and> changed r)) \<and>
         (\<forall>R. found = Some R \<and> R \<noteq> fmempty \<and> params_get ps0 ''state'' = PStr ''absent'' \<longrightarrow>
            (\<exists>r. fst (main kc auth_keys True diff_mode ps0 g) = ExitJson r \<and> changed r))"
proof -
  note m = main_unfold [OF assms, of auth_keys True diff_mode]
  note get = normalize_attributes_get [OF assms(2)]
  have 1: "\<exists>r. fst (main kc auth_keys True diff_mode ps0 g) = ExitJson r \<and>
                  \<not> changed r \<and> end_state r = None"
    if h: "found = None \<or> found = Some fmempty" "params_get ps0 ''state'' = PStr ''present''"
      "params_get ps0 ''name'' \<noteq> PNone"
  proof -
    from h(1) have e: "(case found of None \<Rightarrow> fmempty | Some u \<Rightarrow> u) = fmempty" by auto
    from h get have "params_get ps ''state'' = PStr ''present''" "params_get ps ''name'' \<noteq> PNone"
      by simp_all
    from reconcile_check_create [OF this, of kc auth_keys diff_mode g]
    show ?thesis unfolding m e by auto
  qed
  have 2: "\<exists>r. fst (main kc auth_keys True diff_mode ps0 g) = ExitJson r \<and> changed r"
    if h: "found = Some R" "R \<noteq> fmempty" "params_get ps0 ''state'' = PStr ''present''"
      "R ++\<^sub>f changeset_of auth_keys ps R \<noteq> R" for R
  proof -
    from h get have "params_get ps ''state'' = PStr ''present''" by simp
    from reconcile_check_update [OF h(2) this h(4), of kc diff_mode g]
    show ?thesis unfolding m h(1) by simp
  qed
  have 3: "\<exists>r. fst (main kc auth_keys True diff_mode ps0 g) = ExitJson r \<and> changed r"
    if h: "found = Some R" "R \<noteq> fmempty" "params_get ps0 ''state'' = PStr ''absent''" for R
  proof -
    from h get have "params_get ps ''state'' = PStr ''absent''" by simp
    from reconcile_check_delete [OF h(2) this, of kc auth_keys diff_mode g]
    show ?thesis unfolding m h(1) by auto
  qed
  from 1 2 3 show ?thesis by blast
qed

theorem check_mode_creation_unchanged_witness:
  "fst (main store_api kc_keys True False bob_params None) =
     ExitJson \<lparr>changed = False, msg = NoMsg, diff = PDict fmempty, user = PStr [],
               end_state = None\<rparr> \<and>
   fst (main store_api kc_keys True False email_params (Some bob_user)) =
     ExitJson \<lparr>changed = True, msg = NoMsg, diff = PDict fmempty, user = PStr [],
               end_state = None\<rparr> \<and>
   fst (main store_api kc_keys True False absent_params (Some bob_user)) =
     ExitJson \<lparr>changed = True, msg = NoMsg, diff = PDict fmempty, user = PStr [],
               end_state = None\<rparr>"
proof -
  have t: "get_token store_api bob_params = None"
    and n: "normalize_attributes bob_params = Inr bob_params"
    and l: "lookup_user store_api (params_get bob_params ''id'')
         (params_get bob_params ''name'')
         (params_get bob_params ''realm'') None = Inr None"
    and s: "params_get bob_params ''state'' = PStr ''present''"
    and nm: "params_get bob_params ''name'' = PStr ''bob''"
    by code_simp+
  have t2: "get_token store_api email_params = None"
    and n2: "normalize_attributes email_params = Inr email_params"
    and l2: "lookup_user store_api (params_get email_params ''id'')
         (params_get email_params ''name'')
         (params_get email_params ''realm'') (Some bob_user) = Inr (Some bob_user)"
    and s2: "params_get email_params ''state'' = PStr ''present''"
    and d2: "bob_user ++\<^sub>f changeset_of kc_keys email_params bob_user \<noteq> bob_user"
    and e2: "bob_user \<noteq> fmempty"
    by code_simp+
  have t3: "get_token store_api absent_params = None"
    and n3: "normalize_attributes absent_params = Inr absent_params"
    and l3: "lookup_user store_api (params_get absent_params ''id'')
         (params_get absent_params ''name'')
         (params_get absent_params ''realm'') (Some bob_user) = Inr (Some bob_user)"
    and s3: "params_get absent_params ''state'' = PStr ''absent''"
    by code_simp+
  have run: "fst (main store_api kc_keys True False bob_params None) =
     ExitJson \<lparr>changed = False, msg = NoMsg, diff = PDict fmempty, user = PStr [],
               end_state = None\<rparr>"
    and run2: "fst (main store_api kc_keys True False email_params (Some bob_user)) =
     ExitJson \<lparr>changed = True, msg = NoMsg, diff = PDict fmempty, user = PStr [],
               end_state = None\<rparr>"
    and run3: "fst (main store_api kc_keys True False absent_params (Some bob_user)) =
     ExitJson \<lparr>changed = True, msg = NoMsg, diff = PDict fmempty, user = PStr [],
               end_state = None\<rparr>"
    by code_simp+
  from check_mode_creation_unchanged [OF t n l, of kc_keys False, THEN conjunct1] s nm
  obtain r where "fst (main store_api kc_keys True False bob_params None) = ExitJson r"
    "\<not> changed r" "end_state r = None" by auto
  moreover
  from check_mode_creation_unchanged [OF t2 n2 l2, of kc_keys False, THEN conjunct2, THEN conjunct1]
    s2 d2 e2
  obtain r2 where
    "fst (main store_api kc_keys True False email_params (Some bob_user)) = ExitJson r2"
    "changed r2" by auto
  moreover
  from check_mode_creation_unchanged [OF t3 n3 l3, of kc_keys False, THEN conjunct2, THEN conjunct2]
    s3 e2
  obtain r3 where
    "fst (main store_api kc_keys True False absent_params (Some bob_user)) = ExitJson r3"
    "changed r3" by auto
  ultimately show ?thesis using run run2 run3 by simp
qed

section \<open>The body of an update\<close>

text \<open>
  C4. Whenever a run calls the update of the gateway, the body it sends is the resource
  it fetched with the changeset laid over it: the fields of the changeset with their new
  values, every other field of the fetched resource as it was.
\<close>

theorem update_body_frame:
  assumes "main kc auth_keys check_mode diff_mode ps0 g = (out, g', calls)"
    and "UpdateUser body realm \<in> set calls"
  shows "\<exists>ps R. normalize_attributes ps0 = Inr ps \<and>
           lookup_user kc (params_get ps0 ''id'') (params_get ps0 ''name'')
             (params_get ps0 ''realm'') g = Inr (Some R) \<and>
           body = R ++\<^sub>f changeset_of auth_keys ps R \<and>
           (\<forall>k v. fmlookup (changeset_of auth_keys ps R) k = Some v \<longrightarrow> fmlookup body k = Some v) \<and>
           (\<forall>k. k \<notin> fmdom' (changeset_of auth_keys ps R) \<longrightarrow> fmlookup body k = fmlookup R k)"
proof -
  from main_update_body [OF assms]
  obtain ps R where h: "normalize_attributes ps0 = Inr ps"
    "lookup_user kc (params_get ps0 ''id'') (params_get ps0 ''name'')
             (params_get ps0 ''realm'') g = Inr (Some R)"
    "body = R ++\<^sub>f changeset_of auth_keys ps R" by blast
  have "\<forall>k v. fmlookup (changeset_of auth_keys ps R) k = Some v \<longrightarrow> fmlookup body k = Some v"
    unfolding h(3) by (simp add: fmlookup_dom_iff)
  moreover
  have "\<forall>k. k \<notin> fmdom' (changeset_of auth_keys ps R) \<longrightarrow> fmlookup body k = fmlookup R k"
    unfolding h(3) by (simp add: fmdom'_alt_def)
  ultimately show ?thesis using h by blast
qed

theorem update_body_frame_witness:
  "main store_api kc_keys False False email_params (Some bob_user) =
     (ExitJson \<lparr>changed = True, msg = UserUpdated (PStr ''u1''), diff = PDict fmempty,
        user = PDict (fmupd ''email'' (PStr ''x@y.com'') bob_user),
        end_state = Some (fmupd ''email'' (PStr ''x@y.com'') bob_user)\<rparr>,
      Some (fmupd ''email'' (PStr ''x@y.com'') bob_user),
      [GetUserByUserid (PStr ''u1'') (PStr ''master''),
       UpdateUser (fmupd ''email'' (PStr ''x@y.com'') bob_user) (PStr ''master''),
       GetUserByUserid (PStr ''u1'') (PStr ''master'')]) \<and>
   fmupd ''email'' (PStr ''x@y.com'') bob_user =
     bob_user ++\<^sub>f changeset_of kc_keys email_params bob_user"
proof -
  have run: "main store_api kc_keys False False email_params (Some bob_user) =
     (ExitJson \<lparr>changed = True, msg = UserUpdated (PStr ''u1''), diff = PDict fmempty,
        user = PDict (fmupd ''email'' (PStr ''x@y.com'') bob_user),
        end_state = Some (fmupd ''email'' (PStr ''x@y.com'') bob_user)\<rparr>,
      Some (fmupd ''email'' (PStr ''x@y.com'') bob_user),
      [GetUserByUserid (PStr ''u1'') (PStr ''master''),
       UpdateUser (fmupd ''email'' (PStr ''x@y.com'') bob_user) (PStr ''master''),
       GetUserByUserid (PStr ''u1'') (PStr ''master'')])"
    by code_simp
  have n: "normalize_attributes email_params = Inr email_params"
    and l: "lookup_user store_api (params_get email_params ''id'')
         (params_get email_params ''name'')
         (params_get email_params ''realm'') (Some bob_user) = Inr (Some bob_user)"
    by code_simp+
  have "UpdateUser (fmupd ''email'' (PStr ''x@y.com'') bob_user) (PStr ''master'')
      \<in> set [GetUserByUserid (PStr ''u1'') (PStr ''master''),
       UpdateUser (fmupd ''email'' (PStr ''x@y.com'') bob_user) (PStr ''master''),
       GetUserByUserid (PStr ''u1'') (PStr ''master'')]" by simp
  from update_body_frame [OF run this] n l
  have "fmupd ''email'' (PStr ''x@y.com'') bob_user =
     bob_user ++\<^sub>f changeset_of kc_keys email_params bob_user" by auto
  with run show ?thesis by simp
qed

section \<open>Nothing to change\<close>

text \<open>
  C6, as stated, fails: the resource is there with \<^verbatim>\<open>enabled\<close> true, the caller gives the
  identifier to look up and \<^verbatim>\<open>enabled\<close> true and nothing else, and the run still reports a
  change and calls the update, because \<^verbatim>\<open>email_verified\<close> defaults to true and the resource
  has \<^verbatim>\<open>emailVerified\<close> false. And when the caller gives the address of the server under its
  alias \<^verbatim>\<open>url\<close>, the run reports a change and calls the update although the resource has
  \<^verbatim>\<open>emailVerified\<close> true as well: the alias passes the filter and goes into the body.
\<close>

theorem noop_scenario_counterexample:
  "fmlookup unverified_user ''enabled'' = Some (PBool True) \<and>
   user_params kc_keys enabled_params = [''id'', ''enabled'', ''email_verified''] \<and>
   main store_api kc_keys False False enabled_params (Some unverified_user) =
     (ExitJson \<lparr>changed = True, msg = UserUpdated (PStr ''u1''), diff = PDict fmempty,
        user = PDict (fmupd ''emailVerified'' (PBool True) unverified_user),
        end_state = Some (fmupd ''emailVerified'' (PBool True) unverified_user)\<rparr>,
      Some (fmupd ''emailVerified'' (PBool True) unverified_user),
      [GetUserByUserid (PStr ''u1'') (PStr ''master''),
       UpdateUser (fmupd ''emailVerified'' (PBool True) unverified_user) (PStr ''master''),
       GetUserByUserid (PStr ''u1'') (PStr ''master'')]) \<and>
   fmlookup bob_user ''enabled'' = Some (PBool True) \<and>
   fmlookup bob_user ''emailVerified'' = Some (PBool True) \<and>
   user_params kc_keys enabled_url_params = [''id'', ''enabled'', ''url'', ''email_verified''] \<and>
   reports_change (fst (main store_api kc_keys False False enabled_url_params (Some bob_user))) \<and>
   snd (snd (main store_api kc_keys False False enabled_url_params (Some bob_user))) =
     [GetUserByUserid (PStr ''u1'') (PStr ''master''),
      UpdateUser (fmupd ''url'' (PStr ''https://auth.example.com/auth'') bob_user) (PStr ''master''),
      GetUserByUserid (PStr ''u1'') (PStr ''master'')]"
  by code_simp

text \<open>
  C6, amended. The parameters of the user are at most \<^verbatim>\<open>id\<close>, \<^verbatim>\<open>name\<close>, \<^verbatim>\<open>enabled\<close> and
  \<^verbatim>\<open>email_verified\<close> (so no connection option stands in the options under an alias),
  \<^verbatim>\<open>enabled\<close> is true and \<^verbatim>\<open>email_verified\<close> has its default true, \<^verbatim>\<open>state\<close> is \<^verbatim>\<open>present\<close>, and
  the fetched resource has \<^verbatim>\<open>enabled\<close> true, \<^verbatim>\<open>emailVerified\<close> true, a \<^verbatim>\<open>username\<close>, and under
  \<^verbatim>\<open>id\<close> and \<^verbatim>\<open>username\<close> the key it was looked up with. Then the run reports no change, its
  end state is the fetched resource, and the lookup is its only call on the gateway.
\<close>

theorem noop_scenario_amended:
  assumes token: "get_token kc ps0 = None"
    and only: "set (user_params auth_keys ps0) \<subseteq> {''id'', ''name'', ''enabled'', ''email_verified''}"
    and attr: "params_get ps0 ''attributes'' = PNone"
    and state: "params_get ps0 ''state'' = PStr ''present''"
    and enabled: "params_get ps0 ''enabled'' = PBool True"
    and verified: "params_get ps0 ''email_verified'' = PBool True"
    and found: "lookup_user kc (params_get ps0 ''id'') (params_get ps0 ''name'')
                  (params_get ps0 ''realm'') g = Inr (Some R)"
    and R: "fmlookup R ''enabled'' = Some (PBool True)"
           "fmlookup R ''emailVerified'' = Some (PBool True)"
           "params_get ps0 ''id'' \<noteq> PNone \<longrightarrow> fmlookup R ''id'' = Some (params_get ps0 ''id'')"
           "params_get ps0 ''name'' \<noteq> PNone \<longrightarrow>
              fmlookup R ''username'' = Some (params_get ps0 ''name'')"
           "''username'' \<in> fmdom' R"
  shows "\<exists>r. main kc auth_keys check_mode diff_mode ps0 g =
           (ExitJson r, g,
            [lookup_call (params_get ps0 ''id'') (params_get ps0 ''name'')
               (params_get ps0 ''realm'')]) \<and>
         \<not> changed r \<and> end_state r = Some R"
proof -
  have norm: "normalize_attributes ps0 = Inr ps0"
    using attr by (rule normalize_attributes_none)
  have same: "R ++\<^sub>f changeset_of auth_keys ps0 R = R"
  proof (rule changeset_agrees)
    fix p
    assume p: "p \<in> set (user_params auth_keys ps0)" "recorded ps0 R p"
    from p(1) only have "p \<in> {''id'', ''name'', ''enabled'', ''email_verified''}" by blast
    then consider "p = ''id''" | "p = ''name''" | "p = ''enabled''" | "p = ''email_verified''"
      by blast
    then show "fmlookup R (translated p) = Some (params_get ps0 p)"
    proof cases
      case 1
      with user_params_supplied [OF p(1)] R(3)
      have "fmlookup R ''id'' = Some (params_get ps0 ''id'')" by simp
      with 1 p(2) show ?thesis by (simp add: recorded_def old_value_of_def)
    next
      case 2
      with user_params_supplied [OF p(1)] R(4) show ?thesis by (simp add: translated_name)
    next
      case 3
      with p(2) R(1) enabled show ?thesis by (simp add: recorded_def old_value_of_def)
    next
      case 4
      have "translated ''email_verified'' = ''emailVerified''" by code_simp
      with 4 R(2) verified show ?thesis by simp
    qed
  qed
  from R(1) have ne: "R \<noteq> fmempty" by auto
  from R(5) obtain n where n: "fmlookup R ''username'' = Some n" by (auto simp: fmlookup_dom'_iff)
  have "main kc auth_keys check_mode diff_mode ps0 g =
      (ExitJson \<lparr>changed = False, msg = NoChangesRequired n, diff = PDict fmempty,
                user = PDict R, end_state = Some R\<rparr>, g,
       [lookup_call (params_get ps0 ''id'') (params_get ps0 ''name'') (params_get ps0 ''realm'')])"
    by (simp only: main_unfold [OF token norm found] option.case prod.case
        reconcile_no_change [OF ne state same n])
  then show ?thesis by simp
qed

theorem noop_scenario_amended_witness:
  "main store_api kc_keys False False enabled_params (Some bob_user) =
     (ExitJson \<lparr>changed = False, msg = NoChangesRequired (PStr ''bob''), diff = PDict fmempty,
        user = PDict bob_user, end_state = Some bob_user\<rparr>,
      Some bob_user, [GetUserByUserid (PStr ''u1'') (PStr ''master'')])"
proof -
  have t: "get_token store_api enabled_params = None"
    and o: "set (user_params kc_keys enabled_params)
              \<subseteq> {''id'', ''name'', ''enabled'', ''email_verified''}"
    and a: "params_get enabled_params ''attributes'' = PNone"
    and s: "params_get enabled_params ''state'' = PStr ''present''"
    and e: "params_get enabled_params ''enabled'' = PBool True"
    and v: "params_get enabled_params ''email_verified'' = PBool True"
    and i: "params_get enabled_params ''id'' = PStr ''u1''"
    and nm: "params_get enabled_params ''name'' = PNone"
    and l: "lookup_user store_api (params_get enabled_params ''id'')
        (params_get enabled_params ''name'') (params_get enabled_params ''realm'') (Some bob_user)
        = Inr (Some bob_user)"
    and c: "lookup_call (params_get enabled_params ''id'') (params_get enabled_params ''name'')
        (params_get enabled_params ''realm'') = GetUserByUserid (PStr ''u1'') (PStr ''master'')"
    and R: "fmlookup bob_user ''enabled'' = Some (PBool True)"
      "fmlookup bob_user ''emailVerified'' = Some (PBool True)"
      "fmlookup bob_user ''id'' = Some (PStr ''u1'')"
      "fmlookup bob_user ''username'' = Some (PStr ''bob'')"
    by code_simp+
  have run: "fst (main store_api kc_keys False False enabled_params (Some bob_user)) =
     ExitJson \<lparr>changed = False, msg = NoChangesRequired (PStr ''bob''), diff = PDict fmempty,
        user = PDict bob_user, end_state = Some bob_user\<rparr>"
    by code_simp
  from R(4) have u: "''username'' \<in> fmdom' bob_user" by (rule fmdom'I)
  from R(3) i have ri: "params_get enabled_params ''id'' \<noteq> PNone \<longrightarrow>
      fmlookup bob_user ''id'' = Some (params_get enabled_params ''id'')" by simp
  from nm have rn: "params_get enabled_params ''name'' \<noteq> PNone \<longrightarrow>
      fmlookup bob_user ''username'' = Some (params_get enabled_params ''name'')" by simp
  from noop_scenario_amended [OF t o a s e v l R(1,2) ri rn u, of False False] c
  obtain x where "main store_api kc_keys False False enabled_params (Some bob_user) =
           (ExitJson x, Some bob_user, [GetUserByUserid (PStr ''u1'') (PStr ''master'')])"
    by auto
  with run show ?thesis by simp
qed

section \<open>Fields the caller leaves out\<close>

text \<open>
  C5, as stated, fails: the caller gives an identifier and an \<^verbatim>\<open>email\<close> and leaves \<^verbatim>\<open>enabled\<close>
  out, which then has its default true in the options; the remote resource has \<^verbatim>\<open>enabled\<close>
  false, the body sent to the update has \<^verbatim>\<open>enabled\<close> true, and so has the remote resource
  after the update. And when the caller gives no \<^verbatim>\<open>name\<close> but the alias \<^verbatim>\<open>username\<close>, the
  body and the remote resource after the update have the value of the alias under
  \<^verbatim>\<open>username\<close>.
\<close>

theorem omission_preservation_counterexample:
  "params_get email_params ''enabled'' = PBool True \<and>
   fmlookup disabled_user ''enabled'' = Some (PBool False) \<and>
   main store_api kc_keys False False email_params (Some disabled_user) =
     (ExitJson \<lparr>changed = True, msg = UserUpdated (PStr ''u1''), diff = PDict fmempty,
        user = PDict (fmupd ''email'' (PStr ''x@y.com'')
                 (fmupd ''enabled'' (PBool True) disabled_user)),
        end_state = Some (fmupd ''email'' (PStr ''x@y.com'')
                 (fmupd ''enabled'' (PBool True) disabled_user))\<rparr>,
      Some (fmupd ''email'' (PStr ''x@y.com'') (fmupd ''enabled'' (PBool True) disabled_user)),
      [GetUserByUserid (PStr ''u1'') (PStr ''master''),
       UpdateUser (fmupd ''email'' (PStr ''x@y.com'') (fmupd ''enabled'' (PBool True) disabled_user))
         (PStr ''master''),
       GetUserByUserid (PStr ''u1'') (PStr ''master'')]) \<and>
   fmlookup (fmupd ''email'' (PStr ''x@y.com'') (fmupd ''enabled'' (PBool True) disabled_user))
     ''enabled'' = Some (PBool True) \<and>
   params_get rename_params ''name'' = PNone \<and>
   fmlookup bob_user ''username'' = Some (PStr ''bob'') \<and>
   snd (snd (main store_api kc_keys False False rename_params (Some bob_user))) =
     [GetUserByUserid (PStr ''u1'') (PStr ''master''),
      UpdateUser (fmupd ''username'' (PStr ''bruce'') bob_user) (PStr ''master''),
      GetUserByUserid (PStr ''u1'') (PStr ''master'')] \<and>
   fst (snd (main store_api kc_keys False False rename_params (Some bob_user)))
     = Some (fmupd ''username'' (PStr ''bruce'') bob_user)"
  by code_simp

text \<open>
  C5, amended. Take a field that is \<^verbatim>\<open>None\<close> in the options (left out by the caller and
  without a default, so neither \<^verbatim>\<open>enabled\<close> nor \<^verbatim>\<open>email_verified\<close>) and under whose remote name
  no parameter of the user is written (the alias \<^verbatim>\<open>username\<close> of the connection user is
  written under the remote name of \<^verbatim>\<open>name\<close>). Whenever the update of the storing gateway is
  called, the remote name of the field is not in the changeset, the body has under it just
  what the fetched resource has there, a value or nothing, and the body is the remote resource
  after the update: the remote value of the field is unchanged.
\<close>

theorem omission_preservation_amended:
  assumes "main store_api auth_keys check_mode diff_mode ps0 g = (out, g', calls)"
    and "UpdateUser body realm \<in> set calls"
  shows "\<exists>ps R. normalize_attributes ps0 = Inr ps \<and> g = Some R \<and> g' = Some body \<and>
           (\<forall>f. params_get ps0 f = PNone \<and>
                 (\<forall>q \<in> set (user_params auth_keys ps0). translated q \<noteq> translated f) \<longrightarrow>
              translated f \<notin> fmdom' (changeset_of auth_keys ps R) \<and>
              fmlookup body (translated f) = fmlookup R (translated f))"
proof -
  from main_update_body [OF assms]
  obtain ps R where h: "normalize_attributes ps0 = Inr ps"
    "lookup_user store_api (params_get ps0 ''id'') (params_get ps0 ''name'')
             (params_get ps0 ''realm'') g = Inr (Some R)"
    "body = R ++\<^sub>f changeset_of auth_keys ps R" by blast
  from h(2) have g: "g = Some R" by (simp add: store_api_simps)
  from main_update_state [OF assms] have g': "g' = Some body" by (simp add: store_api_simps)
  note ups = normalize_attributes_user_params [OF h(1), of auth_keys]
  have "translated f \<notin> fmdom' (changeset_of auth_keys ps R) \<and>
        fmlookup body (translated f) = fmlookup R (translated f)"
    if "\<forall>q \<in> set (user_params auth_keys ps0). translated q \<noteq> translated f" for f
  proof -
    from that have "\<forall>q \<in> set (user_params auth_keys ps). translated q \<noteq> translated f"
      by (simp add: ups)
    from changeset_of_unwritten [OF this, of R]
    show ?thesis unfolding h(3) by (simp add: fmlookup_dom_iff fmdom'_notI)
  qed
  with h(1) g g' show ?thesis by blast
qed

theorem omission_preservation_amended_witness:
  "params_get email_params ''first_name'' = PNone \<and>
   fst (snd (main store_api kc_keys False False email_params (Some bob_user))) =
     Some (fmupd ''email'' (PStr ''x@y.com'') bob_user) \<and>
   fmlookup (fmupd ''email'' (PStr ''x@y.com'') bob_user) ''firstName'' = fmlookup bob_user ''firstName''"
proof -
  have run: "main store_api kc_keys False False email_params (Some bob_user) =
     (fst (main store_api kc_keys False False email_params (Some bob_user)),
      fst (snd (main store_api kc_keys False False email_params (Some bob_user))),
      [GetUserByUserid (PStr ''u1'') (PStr ''master''),
       UpdateUser (fmupd ''email'' (PStr ''x@y.com'') bob_user) (PStr ''master''),
       GetUserByUserid (PStr ''u1'') (PStr ''master'')])"
    by code_simp
  have u: "UpdateUser (fmupd ''email'' (PStr ''x@y.com'') bob_user) (PStr ''master'')
      \<in> set [GetUserByUserid (PStr ''u1'') (PStr ''master''),
       UpdateUser (fmupd ''email'' (PStr ''x@y.com'') bob_user) (PStr ''master''),
       GetUserByUserid (PStr ''u1'') (PStr ''master'')]" by simp
  have n: "params_get email_params ''first_name'' = PNone"
    and t: "translated ''first_name'' = ''firstName''"
    and o: "\<forall>q \<in> set (user_params kc_keys email_params). translated q \<noteq> translated ''first_name''"
    by code_simp+
  from omission_preservation_amended [OF run u]
  obtain ps R where R: "Some bob_user = Some R"
    "fst (snd (main store_api kc_keys False False email_params (Some bob_user))) =
       Some (fmupd ''email'' (PStr ''x@y.com'') bob_user)"
    "\<forall>f. params_get email_params f = PNone \<and>
          (\<forall>q \<in> set (user_params kc_keys email_params). translated q \<noteq> translated f) \<longrightarrow>
       translated f \<notin> fmdom' (changeset_of kc_keys ps R) \<and>
       fmlookup (fmupd ''email'' (PStr ''x@y.com'') bob_user) (translated f)
         = fmlookup R (translated f)"
    by blast
  from R(3) [THEN spec, of "''first_name''"] n o t R(1)
  have "fmlookup (fmupd ''email'' (PStr ''x@y.com'') bob_user) ''firstName''
      = fmlookup bob_user ''firstName''" by simp
  with n R(2) show ?thesis by simp
qed

section \<open>Running twice\<close>

text \<open>
  C2, as stated, fails: when the remote resource already is what the caller asks for, the
  first run reports no change. And when the caller gives \<^verbatim>\<open>name\<close> and the alias \<^verbatim>\<open>username\<close>
  for the connection user, the second run reports a change as the first does: both options
  are written under \<^verbatim>\<open>username\<close>, and each run sets the one the resource does not have.
\<close>

theorem idempotence_counterexample:
  "main store_api kc_keys False False bob_params (Some bob_user) =
     (ExitJson \<lparr>changed = False, msg = NoChangesRequired (PStr ''bob''), diff = PDict fmempty,
        user = PDict bob_user, end_state = Some bob_user\<rparr>,
      Some bob_user, [GetUserByName (PStr ''bob'') (PStr ''master'')]) \<and>
   reports_change (fst (main store_api kc_keys False False alias_params (Some bob_user))) \<and>
   fst (snd (main store_api kc_keys False False alias_params (Some bob_user)))
     = Some aliased_user \<and>
   reports_change (fst (main store_api kc_keys False False alias_params (Some aliased_user)))"
  by code_simp

text \<open>
  C2, amended. The gateway stores what it is sent and holds nothing or a resource with a
  \<^verbatim>\<open>username\<close>; the run is outside check mode, \<^verbatim>\<open>state\<close> is one of its two choices, and the
  parameters of the user keep apart in the changeset (as the options of the argument spec do;
  an alias \<^verbatim>\<open>username\<close> next to \<^verbatim>\<open>name\<close> does not). When a first run exits normally, it reports
  a change exactly when the remote state did not match already (with \<^verbatim>\<open>absent\<close>: a resource
  is there; with \<^verbatim>\<open>present\<close>: none is there, or the changeset alters the one that is), which
  is exactly when it made a mutating call; its end state is the resource it leaves on the
  server: nothing with \<^verbatim>\<open>absent\<close>, and with \<^verbatim>\<open>present\<close> the fetched resource with the
  changeset laid over it, with at most an identifier added by the gateway. A second run with
  the same options on that state exits normally, reports no change, makes no mutating call,
  leaves the state as it is and has the end state of the first run.
\<close>

theorem idempotence_amended:
  assumes st: "params_get ps0 ''state'' = PStr ''present'' \<or>
               params_get ps0 ''state'' = PStr ''absent''"
    and sep: "separate (user_params auth_keys ps0)"
    and wf: "named_store g"
    and run1: "main store_api auth_keys False diff_mode ps0 g = (ExitJson r1, g1, calls1)"
  shows "\<exists>ps. normalize_attributes ps0 = Inr ps \<and>
     (changed r1 \<longleftrightarrow>
        \<not> (if params_get ps0 ''state'' = PStr ''absent'' then stored g = fmempty
            else stored g \<noteq> fmempty \<and>
                 stored g ++\<^sub>f changeset_of auth_keys ps (stored g) = stored g)) \<and>
     (changed r1 \<longleftrightarrow> (\<exists>c \<in> set calls1. mutating c)) \<and>
     end_state r1 = Some (stored g1) \<and>
     (params_get ps0 ''state'' = PStr ''absent'' \<longrightarrow> stored g1 = fmempty) \<and>
     (params_get ps0 ''state'' = PStr ''present'' \<longrightarrow>
        (\<forall>k v. fmlookup (stored g ++\<^sub>f changeset_of auth_keys ps (stored g)) k = Some v \<longrightarrow>
               fmlookup (stored g1) k = Some v) \<and>
        fmdom' (stored g1)
          \<subseteq> insert ''id'' (fmdom' (stored g ++\<^sub>f changeset_of auth_keys ps (stored g)))) \<and>
     (\<exists>r2 calls2. main store_api auth_keys False diff_mode ps0 g1 = (ExitJson r2, g1, calls2) \<and>
        \<not> changed r2 \<and> end_state r2 = end_state r1 \<and> (\<forall>c \<in> set calls2. \<not> mutating c))"
proof -
  let ?l = "lookup_call (params_get ps0 ''id'') (params_get ps0 ''name'') (params_get ps0 ''realm'')"
  let ?B = "stored g"
  from main_store_exit [OF run1] obtain ps where n: "normalize_attributes ps0 = Inr ps" ..
  let ?C = "changeset_of auth_keys ps ?B"
  from sep have sep': "separate (user_params auth_keys ps)"
    by (simp add: normalize_attributes_user_params [OF n])
  have gs: "params_get ps ''state'' = params_get ps0 ''state''"
    using normalize_attributes_get [OF n] by simp
  have nm: "\<not> mutating ?l" by (rule lookup_call_not_mutating)
  obtain c1 where rec: "reconcile store_api auth_keys False diff_mode ps ?B g = (ExitJson r1, g1, c1)"
    and calls1: "calls1 = ?l # c1"
    using run1 unfolding main_store_unfold [OF n] by (auto split: prod.splits)
  have mut: "(\<exists>c \<in> set calls1. mutating c) \<longleftrightarrow> (\<exists>c \<in> set c1. mutating c)"
    using nm calls1 by simp
  have second: "\<exists>r2 calls2. main store_api auth_keys False diff_mode ps0 g1 = (ExitJson r2, g1, calls2) \<and>
        \<not> changed r2 \<and> end_state r2 = end_state r1 \<and> (\<forall>c \<in> set calls2. \<not> mutating c)"
    if "\<exists>r2. main store_api auth_keys False diff_mode ps0 g1 = (ExitJson r2, g1, [?l]) \<and>
           \<not> changed r2 \<and> end_state r2 = end_state r1"
    using that nm by auto
  have ?thesis
    if "changed r1 \<longleftrightarrow>
        \<not> (if params_get ps0 ''state'' = PStr ''absent'' then ?B = fmempty
            else ?B \<noteq> fmempty \<and> ?B ++\<^sub>f ?C = ?B)"
      and "changed r1 \<longleftrightarrow> (\<exists>c \<in> set c1. mutating c)"
      and "end_state r1 = Some (stored g1)"
      and "params_get ps0 ''state'' = PStr ''absent'' \<longrightarrow> stored g1 = fmempty"
      and "params_get ps0 ''state'' = PStr ''present'' \<longrightarrow>
        (\<forall>k v. fmlookup (?B ++\<^sub>f ?C) k = Some v \<longrightarrow> fmlookup (stored g1) k = Some v) \<and>
        fmdom' (stored g1) \<subseteq> insert ''id'' (fmdom' (?B ++\<^sub>f ?C))"
      and "\<exists>r2. main store_api auth_keys False diff_mode ps0 g1 = (ExitJson r2, g1, [?l]) \<and>
           \<not> changed r2 \<and> end_state r2 = end_state r1"
    using n that(1) that(2) [folded mut] that(3,4,5) second [OF that(6)] by blast
  note goal = this
  show ?thesis
  proof (cases "?B = fmempty")
    case empty: True
    from st show ?thesis
    proof
      assume p0: "params_get ps0 ''state'' = PStr ''present''"
      with gs have p: "params_get ps ''state'' = PStr ''present''" by simp
      from reconcile_store_create [OF p rec [unfolded empty]]
      obtain S where S: "g1 = Some S" "end_state r1 = Some S" "changed r1"
        "S = changeset_of auth_keys ps fmempty \<or>
            (''id'' |\<notin>| fmdom (changeset_of auth_keys ps fmempty) \<and>
             S = fmupd ''id'' (PStr ''generated-id'') (changeset_of auth_keys ps fmempty))"
        "''username'' |\<in>| fmdom S" "\<exists>c \<in> set c1. mutating c" by blast
      from S(5) have ne: "S \<noteq> fmempty" by (rule fmdom_nonempty)
      from changeset_of_created [OF sep' S(4)] have fp: "S ++\<^sub>f changeset_of auth_keys ps S = S" .
      have look: "\<forall>k v. fmlookup (?B ++\<^sub>f ?C) k = Some v \<longrightarrow> fmlookup (stored g1) k = Some v"
        using S(1,4) unfolding empty by (auto simp: fmlookup_dom_iff stored_Some)
      have dom: "fmdom' (stored g1) \<subseteq> insert ''id'' (fmdom' (?B ++\<^sub>f ?C))"
        using S(1,4) unfolding empty by (auto simp: stored_Some)
      from main_store_no_change [OF n p ne fp S(5), of False diff_mode] S(1,2,3,6) p0 empty look dom
      show ?thesis by (intro goal) (simp_all add: stored_Some subset_insertI)
    next
      assume a0: "params_get ps0 ''state'' = PStr ''absent''"
      with gs have a: "params_get ps ''state'' = PStr ''absent''" by simp
      from reconcile_absent_missing [OF a, of store_api auth_keys False diff_mode g]
        rec [unfolded empty]
      have r: "g1 = g" "c1 = []" "\<not> changed r1" "end_state r1 = Some fmempty" by auto
      from main_store_absent_missing [OF n a empty, of auth_keys False diff_mode] r a0 empty
      show ?thesis by (intro goal) simp_all
    qed
  next
    case nonempty: False
    then obtain R where g: "g = Some R" and R: "R \<noteq> fmempty" and B: "?B = R"
      by (cases g) (auto simp: stored_def)
    from wf g have u: "''username'' |\<in>| fmdom R" by (simp add: named_store_def)
    from rec B have rec': "reconcile store_api auth_keys False diff_mode ps R g = (ExitJson r1, g1, c1)"
      by simp
    let ?D = "R ++\<^sub>f changeset_of auth_keys ps R"
    from st show ?thesis
    proof
      assume p0: "params_get ps0 ''state'' = PStr ''present''"
      with gs have p: "params_get ps ''state'' = PStr ''present''" by simp
      show ?thesis
      proof (cases "?D = R")
        case True
        from u obtain nme where nme: "fmlookup R ''username'' = Some nme"
          by (auto simp: fmlookup_dom_iff)
        from reconcile_no_change [OF R p True nme, of store_api False diff_mode g] rec'
        have r: "g1 = g" "c1 = []" "\<not> changed r1" "end_state r1 = Some R" by auto
        from main_store_no_change [OF n p R True u, of False diff_mode] r g p0 True R
        show ?thesis unfolding B by (intro goal [unfolded B]) (simp_all add: stored_Some subset_insertI)
      next
        case False
        from reconcile_store_update [OF R p False rec']
        have r: "g1 = Some ?D" "end_state r1 = Some ?D" "changed r1" "\<exists>c \<in> set c1. mutating c"
          by blast+
        from u have uD: "''username'' |\<in>| fmdom ?D" by simp
        then have neD: "?D \<noteq> fmempty" by (rule fmdom_nonempty)
        from main_store_no_change [OF n p neD changeset_of_settled [OF sep'] uD, of False diff_mode]
          r p0 False R
        show ?thesis unfolding B by (intro goal [unfolded B]) (simp_all add: stored_Some subset_insertI)
      qed
    next
      assume a0: "params_get ps0 ''state'' = PStr ''absent''"
      with gs have a: "params_get ps ''state'' = PStr ''absent''" by simp
      from reconcile_store_delete [OF R a rec']
      have r: "g1 = None" "end_state r1 = Some fmempty" "changed r1" "\<exists>c \<in> set c1. mutating c"
        by blast+
      have se: "stored None = fmempty" by (simp add: stored_def)
      from main_store_absent_missing [OF n a se, of auth_keys False diff_mode] r a0 R
      show ?thesis unfolding B by (intro goal [unfolded B]) (simp_all add: se)
    qed
  qed
qed

theorem idempotence_amended_witness:
  "params_get bob_params ''state'' = PStr ''present'' \<and>
   separate (user_params kc_keys bob_params) \<and> named_store None \<and>
   main store_api kc_keys False False bob_params None =
     (ExitJson \<lparr>changed = True, msg = UserCreated (PStr ''bob'') (PStr ''generated-id''),
        diff = PDict fmempty,
        user = PDict (fmupd ''id'' (PStr ''generated-id'')
                 (changeset_of kc_keys bob_params fmempty)),
        end_state = Some (fmupd ''id'' (PStr ''generated-id'')
                 (changeset_of kc_keys bob_params fmempty))\<rparr>,
      Some (fmupd ''id'' (PStr ''generated-id'') (changeset_of kc_keys bob_params fmempty)),
      [GetUserByName (PStr ''bob'') (PStr ''master''),
       CreateUser (changeset_of kc_keys bob_params fmempty) (PStr ''master''),
       GetUserByName (PStr ''bob'') (PStr ''master'')]) \<and>
   fst (main store_api kc_keys False False bob_params
     (Some (fmupd ''id'' (PStr ''generated-id'') (changeset_of kc_keys bob_params fmempty))))
   = ExitJson \<lparr>changed = False, msg = NoChangesRequired (PStr ''bob''), diff = PDict fmempty,
        user = PDict (fmupd ''id'' (PStr ''generated-id'')
                 (changeset_of kc_keys bob_params fmempty)),
        end_state = Some (fmupd ''id'' (PStr ''generated-id'')
                 (changeset_of kc_keys bob_params fmempty))\<rparr>"
proof -
  have s: "params_get bob_params ''state'' = PStr ''present''"
    and p: "separate (user_params kc_keys bob_params)"
    by code_simp+
  have w: "named_store None" by (simp add: named_store_def)
  have run1: "main store_api kc_keys False False bob_params None =
     (ExitJson \<lparr>changed = True, msg = UserCreated (PStr ''bob'') (PStr ''generated-id''),
        diff = PDict fmempty,
        user = PDict (fmupd ''id'' (PStr ''generated-id'')
                 (changeset_of kc_keys bob_params fmempty)),
        end_state = Some (fmupd ''id'' (PStr ''generated-id'')
                 (changeset_of kc_keys bob_params fmempty))\<rparr>,
      Some (fmupd ''id'' (PStr ''generated-id'') (changeset_of kc_keys bob_params fmempty)),
      [GetUserByName (PStr ''bob'') (PStr ''master''),
       CreateUser (changeset_of kc_keys bob_params fmempty) (PStr ''master''),
       GetUserByName (PStr ''bob'') (PStr ''master'')])"
    by code_simp
  have run2: "fst (main store_api kc_keys False False bob_params
     (Some (fmupd ''id'' (PStr ''generated-id'') (changeset_of kc_keys bob_params fmempty))))
   = ExitJson \<lparr>changed = False, msg = NoChangesRequired (PStr ''bob''), diff = PDict fmempty,
        user = PDict (fmupd ''id'' (PStr ''generated-id'')
                 (changeset_of kc_keys bob_params fmempty)),
        end_state = Some (fmupd ''id'' (PStr ''generated-id'')
                 (changeset_of kc_keys bob_params fmempty))\<rparr>"
    by code_simp
  from idempotence_amended [OF disjI1 [OF s] p w run1]
  obtain r2 where "fst (main store_api kc_keys False False bob_params
     (Some (fmupd ''id'' (PStr ''generated-id'') (changeset_of kc_keys bob_params fmempty))))
     = ExitJson r2" "\<not> changed r2" by auto
  with s p w run1 run2 show ?thesis by simp
qed

end
